theory Spec2Isabelle
  imports Complex_Main
begin

section \<open>Floating-point values\<close>

text \<open>
  The scores handled by \<^verbatim>\<open>batch_score_claims.py\<close> and \<^verbatim>\<open>evaluate_stability.py\<close>
  are Python/numpy floats. A float is modelled as a real number or one of the three
  special values; rounding is not modelled (a finite float stands for the real it
  denotes) and the two zeros are one value.
\<close>

datatype pyfloat = Fin real | PInf | NInf | NaN

text \<open>Comparison \<^verbatim>\<open>a >= b\<close> and \<^verbatim>\<open>a > b\<close>: false as soon as one side is NaN.\<close>

fun fge :: "pyfloat \<Rightarrow> pyfloat \<Rightarrow> bool" where
  "fge NaN _ = False"
| "fge _ NaN = False"
| "fge (Fin a) (Fin b) = (a \<ge> b)"
| "fge PInf _ = True"
| "fge _ NInf = True"
| "fge (Fin _) PInf = False"
| "fge NInf _ = False"

fun fgt :: "pyfloat \<Rightarrow> pyfloat \<Rightarrow> bool" where
  "fgt NaN _ = False"
| "fgt _ NaN = False"
| "fgt (Fin a) (Fin b) = (a > b)"
| "fgt PInf PInf = False"
| "fgt PInf _ = True"
| "fgt NInf _ = False"
| "fgt (Fin _) NInf = True"
| "fgt (Fin _) PInf = False"

text \<open>Subtraction and division of floats as numpy computes them elementwise.\<close>

fun fsub :: "pyfloat \<Rightarrow> pyfloat \<Rightarrow> pyfloat" where
  "fsub NaN _ = NaN"
| "fsub _ NaN = NaN"
| "fsub (Fin a) (Fin b) = Fin (a - b)"
| "fsub PInf PInf = NaN"
| "fsub NInf NInf = NaN"
| "fsub PInf _ = PInf"
| "fsub NInf _ = NInf"
| "fsub (Fin _) PInf = NInf"
| "fsub (Fin _) NInf = PInf"

fun fdiv :: "pyfloat \<Rightarrow> pyfloat \<Rightarrow> pyfloat" where
  "fdiv NaN _ = NaN"
| "fdiv _ NaN = NaN"
| "fdiv (Fin a) (Fin b) =
     (if b \<noteq> 0 then Fin (a / b)
      else if a = 0 then NaN
      else if a > 0 then PInf else NInf)"
| "fdiv (Fin _) _ = Fin 0"
| "fdiv PInf (Fin b) = (if b \<ge> 0 then PInf else NInf)"
| "fdiv NInf (Fin b) = (if b \<ge> 0 then NInf else PInf)"
| "fdiv _ _ = NaN"

section \<open>Risk bands (\<^verbatim>\<open>assign_risk_band\<close>)\<close>

text \<open>
  \<^verbatim>\<open>
  def assign_risk_band(score: float) -> str:
      if score >= 0.95:
          return "HIGH"
      elif score >= 0.85:
          return "MEDIUM"
      else:
          return "LOW"
  \<close>
\<close>

definition assign_risk_band :: "pyfloat \<Rightarrow> string" where
  "assign_risk_band score =
     (if fge score (Fin (95 / 100)) then ''HIGH''
      else if fge score (Fin (85 / 100)) then ''MEDIUM''
      else ''LOW'')"

text \<open>
  The severity order of the three labels, \<open>LOW < MEDIUM < HIGH\<close>, is the
  specification's; the code only produces the labels.
\<close>

definition severity :: "string \<Rightarrow> nat" where
  "severity b = (if b = ''HIGH'' then 2 else if b = ''MEDIUM'' then 1 else 0)"

section \<open>Errors, tables and external collaborators\<close>

text \<open>
  Every exception a run can end with is a value. \<open>SchemaMismatch\<close> is the
  specification's name for the failure of a scoring call on a table whose feature columns
  are not those of training. \<open>InvalidHyperparameter\<close> is the specification's name
  for a rejected hyperparameter; no function of the repository raises it.
\<close>

datatype error =
    FileNotFoundError
  | KeyError string
  | ModelResolutionError
  | SchemaMismatch
  | InvalidHyperparameter
  | ValueError string
  | ZeroDivisionError

text \<open>
  The feature table read by \<^verbatim>\<open>pd.read_parquet\<close>: the column \<^verbatim>\<open>provider_id\<close>
  (absent when the file has no such column) and the remaining, numeric columns, held row
  by row. \<^verbatim>\<open>df["provider_id"]\<close> raises \<open>KeyError\<close> when the column is absent;
  \<^verbatim>\<open>df.drop(columns=["provider_id"])\<close> is the pair of the two other fields.
\<close>

record 'id dataframe =
  id_column :: "'id list option"
  feature_names :: "string list"
  feature_rows :: "pyfloat list list"

definition wf_dataframe :: "'id dataframe \<Rightarrow> bool" where
  "wf_dataframe df =
     ((case id_column df of None \<Rightarrow> True | Some ids \<Rightarrow> length ids = length (feature_rows df)) \<and>
      list_all (\<lambda>r. length r = length (feature_names df)) (feature_rows df))"

text \<open>
  A fitted pipeline (imputer, scaler and isolation forest), as \<^verbatim>\<open>mlflow.sklearn.load_model\<close>
  or \<^verbatim>\<open>pipeline.fit\<close> hands it over: the feature columns it was fitted on and the
  value its \<^verbatim>\<open>score_samples\<close> gives to one row (the opposite of the anomaly score).
\<close>

record sk_model =
  feature_names_in :: "string list"
  sample_score :: "pyfloat list \<Rightarrow> real"

text \<open>
  Modelled from the spec: the scoring entry point of the isolation ensemble
  (\<^verbatim>\<open>score_samples\<close> of the fitted pipeline), which is library code outside the
  repository's sources. "Scoring with a feature set that does not match the Ensemble's
  training feature set fails with a SchemaMismatch error"; otherwise every row gets its
  score.
\<close>

definition score_samples :: "sk_model \<Rightarrow> string list \<Rightarrow> pyfloat list list \<Rightarrow> error + real list" where
  "score_samples model names rows =
     (if names \<noteq> feature_names_in model then Inl SchemaMismatch
      else Inr (map (sample_score model) rows))"

section \<open>Batch scoring (\<^verbatim>\<open>batch_score_providers\<close>)\<close>

record 'id result_row =
  provider_id :: 'id
  fraud_risk_score :: pyfloat
  risk_band :: string

text \<open>
  The world a batch run acts on: the feature tables that \<^verbatim>\<open>pd.read_parquet\<close> can
  read, the models the registry resolves, the directories made and the output files
  written (the parquet and the csv file of a run hold the same table). Writes are taken
  to succeed.
\<close>

record 'id world =
  parquet :: "string \<rightharpoonup> 'id dataframe"
  registry :: "string \<rightharpoonup> sk_model"
  dirs :: "string set"
  outputs :: "string \<rightharpoonup> 'id result_row list"

text \<open>
  \<^verbatim>\<open>Series.min()\<close> and \<^verbatim>\<open>Series.max()\<close> of a column of finite floats; NaN on
  an empty column.
\<close>

definition series_min :: "real list \<Rightarrow> pyfloat" where
  "series_min col = (case col of [] \<Rightarrow> NaN | x # rest \<Rightarrow> Fin (fold min rest x))"

definition series_max :: "real list \<Rightarrow> pyfloat" where
  "series_max col = (case col of [] \<Rightarrow> NaN | x # rest \<Rightarrow> Fin (fold max rest x))"

text \<open>
  Lines 84 to 93, the normalization of the column \<^verbatim>\<open>fraud_risk_score\<close>:
  \<^verbatim>\<open>
  score_min = results_df["fraud_risk_score"].min()
  score_max = results_df["fraud_risk_score"].max()
  if score_max > score_min:
      results_df["fraud_risk_score"] = (
          (results_df["fraud_risk_score"] - score_min) / (score_max - score_min))
  else:
      results_df["fraud_risk_score"] = 0.0
  \<close>
\<close>

definition normalize_scores :: "real list \<Rightarrow> pyfloat list" where
  "normalize_scores col =
     (let score_min = series_min col;
          score_max = series_max col
      in if fgt score_max score_min
         then map (\<lambda>s. fdiv (fsub (Fin s) score_min) (fsub score_max score_min)) col
         else map (\<lambda>_. Fin 0) col)"

text \<open>
  Lines 78 to 96: the output table, from the identifiers and the scores
  \<^verbatim>\<open>-model.score_samples(X)\<close>, with the normalized score and its band.
\<close>

definition score_table :: "'id list \<Rightarrow> real list \<Rightarrow> 'id result_row list" where
  "score_table provider_ids scores =
     map (\<lambda>(p, s). \<lparr>provider_id = p, fraud_risk_score = s, risk_band = assign_risk_band s\<rparr>)
       (zip provider_ids (normalize_scores scores))"

text \<open>
  Lines 101 to 121: the directory is made and the table is written to the two latest
  files and the two dated snapshots.
\<close>

definition persist :: "string \<Rightarrow> string \<Rightarrow> 'id result_row list \<Rightarrow> 'id world \<Rightarrow> 'id world" where
  "persist today_str output_dir results_df w =
     (let latest_parquet = output_dir @ ''/provider_fraud_scores.parquet'';
          latest_csv = output_dir @ ''/provider_fraud_scores.csv'';
          dated_parquet = output_dir @ ''/provider_fraud_scores_'' @ today_str @ ''.parquet'';
          dated_csv = output_dir @ ''/provider_fraud_scores_'' @ today_str @ ''.csv''
      in w\<lparr>dirs := insert output_dir (dirs w),
            outputs := (outputs w)(latest_parquet \<mapsto> results_df, latest_csv \<mapsto> results_df,
                                   dated_parquet \<mapsto> results_df, dated_csv \<mapsto> results_df)\<rparr>)"

text \<open>
  The whole run. \<open>today_str\<close> is \<^verbatim>\<open>date.today().isoformat()\<close>. Every failure
  (the table cannot be read, it has no identifier column, the registry does not resolve
  the alias, the scoring call fails) ends the run where the exception is raised, with the
  world as it was.
\<close>

definition batch_score_providers ::
  "string \<Rightarrow> string \<Rightarrow> string \<Rightarrow> string \<Rightarrow> string \<Rightarrow> 'id world \<Rightarrow> (error + unit) \<times> 'id world" where
  "batch_score_providers today_str feature_path model_name model_alias output_dir w =
     (case parquet w feature_path of
        None \<Rightarrow> (Inl FileNotFoundError, w)
      | Some df \<Rightarrow>
          (case id_column df of
             None \<Rightarrow> (Inl (KeyError ''provider_id''), w)
           | Some provider_ids \<Rightarrow>
               (let model_uri = ''models:/'' @ model_name @ ''@'' @ model_alias
                in case registry w model_uri of
                     None \<Rightarrow> (Inl ModelResolutionError, w)
                   | Some model \<Rightarrow>
                       (case score_samples model (feature_names df) (feature_rows df) of
                          Inl e \<Rightarrow> (Inl e, w)
                        | Inr s \<Rightarrow>
                            (let scores = map uminus s;
                                 results_df = score_table provider_ids scores
                             in (Inr (), persist today_str output_dir results_df w))))))"

section \<open>The pipeline (\<^verbatim>\<open>build_fraud_pipeline\<close>)\<close>

text \<open>
  \<^verbatim>\<open>
  imputer = SimpleImputer(strategy="median")
  scaler = StandardScaler()
  model = IsolationForest(n_estimators=200, contamination=contamination,
                          random_state=random_state, n_jobs=-1)
  pipeline = Pipeline(steps=[("imputer", imputer), ("scaler", scaler), ("model", model)])
  return pipeline
  \<close>
  The function only builds the three unfitted steps: it reads no data and checks none of
  its arguments.
\<close>

record isolation_forest =
  n_estimators :: int
  contamination :: real
  random_state :: int
  n_jobs :: int

datatype step = SimpleImputer string | StandardScaler | IsolationForest isolation_forest

type_synonym pipeline = "(string \<times> step) list"

definition build_fraud_pipeline :: "real \<Rightarrow> int \<Rightarrow> pipeline" where
  "build_fraud_pipeline contamination_arg random_state_arg =
     (let imputer = SimpleImputer ''median'';
          scaler = StandardScaler;
          model = IsolationForest \<lparr>n_estimators = 200, contamination = contamination_arg,
                                   random_state = random_state_arg, n_jobs = - 1\<rparr>
      in [(''imputer'', imputer), (''scaler'', scaler), (''model'', model)])"

text \<open>
  \<^verbatim>\<open>pipeline.fit(X)\<close> is library code: the evaluator takes it as the parameter
  \<open>fit\<close>, from the pipeline and the feature columns and rows to a fitted pipeline or an
  error.
\<close>

type_synonym fit_fn = "pipeline \<Rightarrow> string list \<Rightarrow> pyfloat list list \<Rightarrow> error + sk_model"

section \<open>Stability evaluation (\<^verbatim>\<open>evaluate_model_stability\<close>)\<close>

text \<open>A row of \<^verbatim>\<open>run_df\<close> and of \<^verbatim>\<open>scores_df\<close>: the columns provider_id, score, run.\<close>

record 'id score_row =
  row_provider_id :: 'id
  score :: real
  run :: nat

text \<open>
  Lines 65 to 69:
  \<^verbatim>\<open>run_df = pd.DataFrame({"provider_id": ids, "score": scores, "run": i})\<close>
\<close>

definition run_frame :: "'id list \<Rightarrow> real list \<Rightarrow> nat \<Rightarrow> 'id score_row list" where
  "run_frame ids scores i =
     map (\<lambda>(p, s). \<lparr>row_provider_id = p, score = s, run = i\<rparr>) (zip ids scores)"

text \<open>
  Lines 52 to 71, the loop over \<^verbatim>\<open>range(n_runs)\<close>, as a recursion over the run
  indices still to do: the seed is \<^verbatim>\<open>base_random_state + i\<close>, a fresh pipeline is
  built, fitted and asked for the scores of the table it was fitted on. A failing fit or
  scoring call ends the evaluation.
\<close>

fun stability_runs ::
  "fit_fn \<Rightarrow> string list \<Rightarrow> pyfloat list list \<Rightarrow> 'id list \<Rightarrow> real \<Rightarrow> int \<Rightarrow> nat list \<Rightarrow>
     error + 'id score_row list list" where
  "stability_runs fit names rows ids contamination_arg base_random_state [] = Inr []"
| "stability_runs fit names rows ids contamination_arg base_random_state (i # todo) =
     (let seed = base_random_state + int i;
          pipeline = build_fraud_pipeline contamination_arg seed
      in case fit pipeline names rows of
           Inl e \<Rightarrow> Inl e
         | Inr fitted \<Rightarrow>
             (case score_samples fitted names rows of
                Inl e \<Rightarrow> Inl e
              | Inr s \<Rightarrow>
                  (let scores = map uminus s;
                       run_df = run_frame ids scores i
                   in case stability_runs fit names rows ids contamination_arg base_random_state todo of
                        Inl e \<Rightarrow> Inl e
                      | Inr all_scores \<Rightarrow> Inr (run_df # all_scores))))"

text \<open>\<^verbatim>\<open>pd.concat\<close> refuses an empty list of frames.\<close>

definition concat_frames :: "'a list list \<Rightarrow> error + 'a list" where
  "concat_frames frames =
     (if frames = [] then Inl (ValueError ''No objects to concatenate'')
      else Inr (concat frames))"

text \<open>
  \<^verbatim>\<open>scores_df.pivot(index="provider_id", columns="run", values="score")\<close>: the
  entity-by-run table. It is refused when a pair of identifier and run occurs twice; the
  identifiers and the runs are each sorted, and a pair with no row has a missing cell.
\<close>

record 'id pivot_table =
  index :: "'id list"
  columns :: "nat list"
  cell :: "'id \<Rightarrow> nat \<Rightarrow> real option"

definition pivot :: "('id::linorder) score_row list \<Rightarrow> error + 'id pivot_table" where
  "pivot df =
     (if \<not> distinct (map (\<lambda>r. (row_provider_id r, run r)) df)
      then Inl (ValueError ''Index contains duplicate entries, cannot reshape'')
      else Inr \<lparr>index = sort (remdups (map row_provider_id df)),
                columns = sort (remdups (map run df)),
                cell = (\<lambda>p r. map_of (map (\<lambda>row. ((row_provider_id row, run row), score row)) df) (p, r))\<rparr>)"

definition column :: "'id pivot_table \<Rightarrow> nat \<Rightarrow> real option list" where
  "column pv r = map (\<lambda>p. cell pv p r) (index pv)"

text \<open>
  \<^verbatim>\<open>pivot_scores.corr()\<close>: the Pearson correlation of every pair of columns over the
  rows where both have a value, computed on the deviations from the means. With fewer
  observations than one, or a zero divisor (a column without variance), the entry is NaN.
\<close>

definition complete_pairs :: "real option list \<Rightarrow> real option list \<Rightarrow> (real \<times> real) list" where
  "complete_pairs xs ys = [(x, y). (Some x, Some y) \<leftarrow> zip xs ys]"

definition pearson :: "(real \<times> real) list \<Rightarrow> pyfloat" where
  "pearson ps =
     (let nobs = length ps;
          meanx = (\<Sum>(x, y)\<leftarrow>ps. x) / real nobs;
          meany = (\<Sum>(x, y)\<leftarrow>ps. y) / real nobs;
          ssqdm_x = (\<Sum>(x, y)\<leftarrow>ps. (x - meanx) * (x - meanx));
          ssqdm_y = (\<Sum>(x, y)\<leftarrow>ps. (y - meany) * (y - meany));
          covxy = (\<Sum>(x, y)\<leftarrow>ps. (x - meanx) * (y - meany));
          divisor = sqrt (ssqdm_x * ssqdm_y)
      in if nobs < 1 then NaN
         else if divisor \<noteq> 0 then Fin (covxy / divisor)
         else NaN)"

definition corr :: "'id pivot_table \<Rightarrow> pyfloat list list" where
  "corr pv =
     map (\<lambda>i. map (\<lambda>j. pearson (complete_pairs (column pv i) (column pv j))) (columns pv))
       (columns pv)"

text \<open>
  \<^verbatim>\<open>sort_values("score", ascending=False)\<close> orders the rows by an argsort of the
  score column. The sorting routine itself (numpy's \<^verbatim>\<open>argsort\<close>, of the default kind
  quicksort, which is not stable) is the parameter \<open>argsort\<close>: from a column to the
  positions of its items in ascending order. For \<^verbatim>\<open>ascending=False\<close> pandas reverses
  the items and their positions, sorts them ascending, and reverses the result; no score
  is missing here.
\<close>

type_synonym argsort_fn = "real list \<Rightarrow> nat list"

definition nargsort :: "argsort_fn \<Rightarrow> bool \<Rightarrow> real list \<Rightarrow> nat list" where
  "nargsort argsort ascending items =
     (let idx = [0..<length items];
          non_nans = (if ascending then items else rev items);
          non_nan_idx = (if ascending then idx else rev idx);
          indexer = map (\<lambda>j. non_nan_idx ! j) (argsort non_nans)
      in if ascending then indexer else rev indexer)"

definition sort_values :: "argsort_fn \<Rightarrow> bool \<Rightarrow> 'id score_row list \<Rightarrow> 'id score_row list" where
  "sort_values argsort ascending df = map (\<lambda>k. df ! k) (nargsort argsort ascending (map score df))"

text \<open>\<^verbatim>\<open>head(n)\<close>: the first \<open>n\<close> rows, or all but the last \<open>-n\<close> when \<open>n\<close> is negative.\<close>

definition head :: "int \<Rightarrow> 'a list \<Rightarrow> 'a list" where
  "head n xs = (if n \<ge> 0 then take (nat n) xs else take (length xs - nat (- n)) xs)"

text \<open>
  Lines 96 to 102, the body of the loop over the runs:
  \<^verbatim>\<open>
  top_providers = (scores_df[scores_df["run"] == run]
                   .sort_values("score", ascending=False)
                   .head(top_n)["provider_id"].tolist())
  top_sets.append(set(top_providers))
  \<close>
\<close>

definition top_providers :: "argsort_fn \<Rightarrow> int \<Rightarrow> 'id score_row list \<Rightarrow> nat \<Rightarrow> 'id set" where
  "top_providers argsort top_n scores_df r =
     set (map row_provider_id
            (head top_n (sort_values argsort False (filter (\<lambda>row. run row = r) scores_df))))"

text \<open>
  Lines 104 to 107, the loop over \<^verbatim>\<open>range(len(top_sets) - 1)\<close>:
  \<^verbatim>\<open>overlap = len(top_sets[i].intersection(top_sets[i + 1])) / top_n\<close>.
  The division of two Python integers raises \<open>ZeroDivisionError\<close> for \<open>top_n = 0\<close>.
\<close>

fun overlap_ratios :: "int \<Rightarrow> 'id set list \<Rightarrow> error + real list" where
  "overlap_ratios top_n (a # b # rest) =
     (if top_n = 0 then Inl ZeroDivisionError
      else case overlap_ratios top_n (b # rest) of
             Inl e \<Rightarrow> Inl e
           | Inr overlaps \<Rightarrow> Inr (real (card (a \<inter> b)) / real_of_int top_n # overlaps))"
| "overlap_ratios top_n _ = Inr []"

text \<open>
  The evaluation prints the correlation matrix and the overlap ratios; they are the
  result here. The feature table is read first, then the runs are made.
\<close>

record stability_report =
  corr_matrix :: "pyfloat list list"
  overlaps :: "real list"

definition evaluate_model_stability ::
  "fit_fn \<Rightarrow> argsort_fn \<Rightarrow> ('id::linorder) world \<Rightarrow> string \<Rightarrow> real \<Rightarrow> int \<Rightarrow> int \<Rightarrow> int \<Rightarrow>
     error + stability_report" where
  "evaluate_model_stability fit argsort w feature_path contamination_arg base_random_state n_runs top_n =
     (case parquet w feature_path of
        None \<Rightarrow> Inl FileNotFoundError
      | Some df \<Rightarrow>
          (case id_column df of
             None \<Rightarrow> Inl (KeyError ''provider_id'')
           | Some ids \<Rightarrow>
               (case stability_runs fit (feature_names df) (feature_rows df) ids contamination_arg
                       base_random_state [0..<nat n_runs] of
                  Inl e \<Rightarrow> Inl e
                | Inr all_scores \<Rightarrow>
                    (case concat_frames all_scores of
                       Inl e \<Rightarrow> Inl e
                     | Inr scores_df \<Rightarrow>
                         (case pivot scores_df of
                            Inl e \<Rightarrow> Inl e
                          | Inr pivot_scores \<Rightarrow>
                              (let top_sets = map (top_providers argsort top_n scores_df) [0..<nat n_runs]
                               in case overlap_ratios top_n top_sets of
                                    Inl e \<Rightarrow> Inl e
                                  | Inr ratios \<Rightarrow>
                                      Inr \<lparr>corr_matrix = corr pivot_scores,
                                           overlaps = ratios\<rparr>))))))"

section \<open>What the specification says of a batch\<close>

text \<open>
  The raw scores of a batch are \<^verbatim>\<open>-model.score_samples(X)\<close>, one per row.
\<close>

definition raw_scores :: "sk_model \<Rightarrow> 'id dataframe \<Rightarrow> real list" where
  "raw_scores model df = map (\<lambda>r. - sample_score model r) (feature_rows df)"

text \<open>
  The specification's normalization, in its words: \<open>(raw - min) / (max - min)\<close>
  across the batch, and \<open>0\<close> for every entity when \<open>max = min\<close>.
\<close>

definition spec_normalized :: "real list \<Rightarrow> real list" where
  "spec_normalized raw =
     (if Max (set raw) > Min (set raw)
      then map (\<lambda>s. (s - Min (set raw)) / (Max (set raw) - Min (set raw))) raw
      else map (\<lambda>_. 0) raw)"

text \<open>The four files of a run: the two latest files and the two dated snapshots.\<close>

definition output_paths :: "string \<Rightarrow> string \<Rightarrow> string list" where
  "output_paths today_str output_dir =
     [output_dir @ ''/provider_fraud_scores.parquet'',
      output_dir @ ''/provider_fraud_scores.csv'',
      output_dir @ ''/provider_fraud_scores_'' @ today_str @ ''.parquet'',
      output_dir @ ''/provider_fraud_scores_'' @ today_str @ ''.csv'']"

section \<open>Notions for the properties of an evaluation\<close>

text \<open>
  The table \<^verbatim>\<open>scores_df\<close> of an evaluation whose \<open>N\<close> runs all succeed, run \<open>i\<close>
  with the scores \<open>S i\<close>: the frames of the runs, one after the other.
\<close>

definition all_frames :: "'id list \<Rightarrow> (nat \<Rightarrow> real list) \<Rightarrow> nat \<Rightarrow> 'id score_row list" where
  "all_frames ids S N = concat (map (\<lambda>i. run_frame ids (S i) i) [0..<N])"

text \<open>A run without variance: all its scores are equal (also when there is none).\<close>

definition all_equal :: "real list \<Rightarrow> bool" where
  "all_equal xs = (\<forall>a \<in> set xs. \<forall>b \<in> set xs. a = b)"

text \<open>The rows of a table as pairs of the key (identifier, run) and the score.\<close>

definition keyed :: "'id score_row list \<Rightarrow> (('id \<times> nat) \<times> real) list" where
  "keyed df = map (\<lambda>row. ((row_provider_id row, run row), score row)) df"

text \<open>The score of an entity in a run, from the identifiers and the scores of the run.\<close>

definition score_of :: "'id list \<Rightarrow> real list \<Rightarrow> 'id \<Rightarrow> real" where
  "score_of ids s p = the (map_of (zip ids s) p)"

text \<open>The pivot table of such an evaluation.\<close>

definition pivot_of_frames :: "('id::linorder) list \<Rightarrow> (nat \<Rightarrow> real list) \<Rightarrow> nat \<Rightarrow> 'id pivot_table" where
  "pivot_of_frames ids S N =
     \<lparr>index = sort (remdups (map row_provider_id (all_frames ids S N))),
      columns = sort (remdups (map run (all_frames ids S N))),
      cell = (\<lambda>p r. map_of (keyed (all_frames ids S N)) (p, r))\<rparr>"




text \<open>
  One such routine, for the examples: a stable ascending argsort, equal items in the order
  of the column.
\<close>

definition stable_argsort :: argsort_fn where
  "stable_argsort xs = map snd (sort_key fst (zip xs [0..<length xs]))"

section \<open>Example data\<close>

text \<open>
  A registered model over one feature column whose anomaly score of a row is the value of
  that column, a feature table of three providers, and the world holding both; then a
  model fitted on two columns, which the same table does not have.
\<close>

definition demo_model :: sk_model where
  "demo_model =
     \<lparr>feature_names_in = [''total_claims''],
      sample_score = (\<lambda>r. case r of [Fin v] \<Rightarrow> - v | _ \<Rightarrow> 0)\<rparr>"

definition demo_df :: "nat dataframe" where
  "demo_df =
     \<lparr>id_column = Some [101, 102, 103],
      feature_names = [''total_claims''],
      feature_rows = [[Fin 1], [Fin 3], [Fin 2]]\<rparr>"

definition demo_world :: "nat world" where
  "demo_world =
     \<lparr>parquet = [''fraud_features.parquet'' \<mapsto> demo_df],
      registry = [''models:/fraud_model@staging'' \<mapsto> demo_model],
      dirs = {},
      outputs = Map.empty\<rparr>"

definition demo_model_two :: sk_model where
  "demo_model_two =
     \<lparr>feature_names_in = [''total_claims'', ''avg_claim_amount''],
      sample_score = (\<lambda>r. case r of [Fin v, Fin u] \<Rightarrow> - (v + u) | _ \<Rightarrow> 0)\<rparr>"

definition demo_world_mismatch :: "nat world" where
  "demo_world_mismatch =
     \<lparr>parquet = [''fraud_features.parquet'' \<mapsto> demo_df],
      registry = [''models:/fraud_model@staging'' \<mapsto> demo_model_two],
      dirs = {},
      outputs = Map.empty\<rparr>"

text \<open>
  Fitted pipelines for the stability examples: the forest of an even seed ranks the rows
  the other way round than the forest of an odd seed. A table of identical rows, and the
  world that holds it.
\<close>

definition variant_model :: "string list \<Rightarrow> bool \<Rightarrow> sk_model" where
  "variant_model names flipped =
     \<lparr>feature_names_in = names,
      sample_score = (\<lambda>r. case r of [Fin v] \<Rightarrow> (if flipped then v - 10 else - v) | _ \<Rightarrow> 0)\<rparr>"

definition seeded_model :: "string list \<Rightarrow> int \<Rightarrow> sk_model" where
  "seeded_model names seed = variant_model names (even seed)"

definition seeded_fit :: fit_fn where
  "seeded_fit pipeline names rows =
     (case map_of pipeline ''model'' of
        Some (IsolationForest forest) \<Rightarrow> Inr (seeded_model names (random_state forest))
      | _ \<Rightarrow> Inl (ValueError ''the pipeline has no isolation forest''))"

definition demo_models :: "int \<Rightarrow> nat \<Rightarrow> sk_model" where
  "demo_models base i = seeded_model [''total_claims''] (base + int i)"

definition flat_df :: "nat dataframe" where
  "flat_df =
     \<lparr>id_column = Some [101, 102],
      feature_names = [''total_claims''],
      feature_rows = [[Fin 5], [Fin 5]]\<rparr>"

definition flat_world :: "nat world" where
  "flat_world =
     \<lparr>parquet = [''fraud_features.parquet'' \<mapsto> flat_df],
      registry = Map.empty,
      dirs = {},
      outputs = Map.empty\<rparr>"

section \<open>Properties of the banding\<close>

lemma assign_risk_band_Fin:
  "assign_risk_band (Fin s) =
     (if s \<ge> 95 / 100 then ''HIGH'' else if s \<ge> 85 / 100 then ''MEDIUM'' else ''LOW'')"
  by (simp add: assign_risk_band_def)

lemma severity_band_Fin:
  "severity (assign_risk_band (Fin s)) =
     (if s \<ge> 95 / 100 then 2 else if s \<ge> 85 / 100 then 1 else 0)"
  by (simp add: assign_risk_band_Fin severity_def)

text \<open>
  C2. For every real normalized score \<open>s\<close> the band is HIGH if \<open>s \<ge> 0.95\<close>,
  MEDIUM if \<open>0.85 \<le> s < 0.95\<close> and LOW if \<open>s < 0.85\<close>; the two thresholds are
  the literals of the function and no argument but the score enters.
\<close>

theorem assign_risk_band_thresholds:
  "(s \<ge> 95 / 100 \<longrightarrow> assign_risk_band (Fin s) = ''HIGH'') \<and>
   (85 / 100 \<le> s \<and> s < 95 / 100 \<longrightarrow> assign_risk_band (Fin s) = ''MEDIUM'') \<and>
   (s < 85 / 100 \<longrightarrow> assign_risk_band (Fin s) = ''LOW'')"
  by (simp add: assign_risk_band_Fin)

theorem assign_risk_band_thresholds_witness:
  "assign_risk_band (Fin (95 / 100)) = ''HIGH'' \<and>
   assign_risk_band (Fin (85 / 100)) = ''MEDIUM'' \<and>
   assign_risk_band (Fin (84 / 100)) = ''LOW''"
  using assign_risk_band_thresholds [of "95 / 100"]
        assign_risk_band_thresholds [of "85 / 100"]
        assign_risk_band_thresholds [of "84 / 100"]
  by simp

lemma fge_cases:
  "fge a b \<Longrightarrow>
     (\<exists>x y. a = Fin x \<and> b = Fin y \<and> y \<le> x) \<or> (a = PInf \<and> b \<noteq> NaN) \<or> (b = NInf \<and> a \<noteq> NaN)"
  by (cases a; cases b) simp_all

lemma fgt_imp_fge: "fgt a b \<Longrightarrow> fge a b"
  by (cases a; cases b) simp_all

lemma severity_le_2: "severity b \<le> 2"
  by (simp add: severity_def)

lemma severity_band_PInf: "severity (assign_risk_band PInf) = 2"
  by (simp add: assign_risk_band_def severity_def)

lemma severity_band_NInf: "severity (assign_risk_band NInf) = 0"
  by (simp add: assign_risk_band_def severity_def)

lemma severity_band_mono:
  assumes "fge a b"
  shows "severity (assign_risk_band b) \<le> severity (assign_risk_band a)"
  using fge_cases [OF assms]
proof (elim disjE exE conjE)
  fix x y
  assume "a = Fin x" "b = Fin y" "y \<le> x"
  then show ?thesis by (simp add: severity_band_Fin)
next
  assume "a = PInf" "b \<noteq> NaN"
  then show ?thesis by (simp add: severity_band_PInf severity_le_2)
next
  assume "b = NInf" "a \<noteq> NaN"
  then show ?thesis by (simp add: severity_band_NInf)
qed

text \<open>
  C3. Banding is a function of the normalized score alone and is monotonic: if the
  score of A is greater than or equal to the score of B (as floats compare), the band of
  A is at least as severe as the band of B, and a strictly higher score never gets a
  strictly less severe band.
\<close>

theorem assign_risk_band_monotonic:
  "(fge a b \<longrightarrow> severity (assign_risk_band a) \<ge> severity (assign_risk_band b)) \<and>
   (fgt a b \<longrightarrow> \<not> severity (assign_risk_band a) < severity (assign_risk_band b))"
  using severity_band_mono [of a b] fgt_imp_fge [of a b] by (simp add: not_less)

theorem assign_risk_band_monotonic_witness:
  "fge (Fin (96 / 100)) (Fin (90 / 100)) \<and> fgt (Fin (96 / 100)) (Fin (90 / 100)) \<and>
   severity (assign_risk_band (Fin (96 / 100))) = 2 \<and>
   severity (assign_risk_band (Fin (90 / 100))) = 1 \<and>
   severity (assign_risk_band (Fin (96 / 100))) \<ge> severity (assign_risk_band (Fin (90 / 100))) \<and>
   \<not> severity (assign_risk_band (Fin (96 / 100))) < severity (assign_risk_band (Fin (90 / 100)))"
  using assign_risk_band_monotonic [of "Fin (96 / 100)" "Fin (90 / 100)"]
  by (simp add: severity_band_Fin)

section \<open>Properties of batch scoring\<close>

lemma series_min_Min: "col \<noteq> [] \<Longrightarrow> series_min col = Fin (Min (set col))"
  by (cases col) (simp_all add: series_min_def Min.set_eq_fold [symmetric])

lemma series_max_Max: "col \<noteq> [] \<Longrightarrow> series_max col = Fin (Max (set col))"
  by (cases col) (simp_all add: series_max_def Max.set_eq_fold [symmetric])

lemma normalize_scores_spec:
  assumes "col \<noteq> []"
  shows "normalize_scores col = map Fin (spec_normalized col)"
proof (cases "Max (set col) > Min (set col)")
  case True
  then have "Max (set col) - Min (set col) \<noteq> 0" by simp
  with True assms show ?thesis
    by (simp add: normalize_scores_def spec_normalized_def series_min_Min series_max_Max)
next
  case False
  with assms show ?thesis
    by (simp add: normalize_scores_def spec_normalized_def series_min_Min series_max_Max)
qed

lemma spec_normalized_range:
  assumes "v \<in> set (spec_normalized col)"
  shows "0 \<le> v \<and> v \<le> 1"
proof (cases "Max (set col) > Min (set col)")
  case True
  from assms True obtain s where s: "s \<in> set col"
    and v: "v = (s - Min (set col)) / (Max (set col) - Min (set col))"
    by (auto simp: spec_normalized_def)
  have "Min (set col) \<le> s" "s \<le> Max (set col)" using s by simp_all
  with True show ?thesis unfolding v by simp
next
  case False
  with assms show ?thesis by (auto simp: spec_normalized_def)
qed

lemma length_normalize_scores: "length (normalize_scores col) = length col"
  by (simp add: normalize_scores_def Let_def)

lemma map_provider_id_score_table:
  "length ids = length scores \<Longrightarrow> map provider_id (score_table ids scores) = ids"
  by (simp add: score_table_def length_normalize_scores case_prod_unfold o_def)

lemma map_score_score_table:
  "length ids = length scores \<Longrightarrow>
     map fraud_risk_score (score_table ids scores) = normalize_scores scores"
  by (simp add: score_table_def length_normalize_scores case_prod_unfold o_def)

lemma persist_outputs:
  "p \<in> set (output_paths today_str output_dir) \<Longrightarrow>
     outputs (persist today_str output_dir tbl w) p = Some tbl"
  by (auto simp: persist_def output_paths_def Let_def)

lemma batch_score_providers_success:
  assumes "parquet w feature_path = Some df"
    and "id_column df = Some ids"
    and "registry w (''models:/'' @ model_name @ ''@'' @ model_alias) = Some model"
    and "feature_names df = feature_names_in model"
  shows "batch_score_providers today_str feature_path model_name model_alias output_dir w =
           (Inr (), persist today_str output_dir (score_table ids (raw_scores model df)) w)"
  using assms
  by (simp add: batch_score_providers_def score_samples_def raw_scores_def Let_def o_def)

lemma length_raw_scores:
  "wf_dataframe df \<Longrightarrow> id_column df = Some ids \<Longrightarrow> length ids = length (raw_scores model df)"
  by (simp add: wf_dataframe_def raw_scores_def)

lemma demo_raw_scores: "raw_scores demo_model demo_df = [1, 3, 2]"
  by (simp add: raw_scores_def demo_model_def demo_df_def)

lemma demo_spec_normalized: "spec_normalized [1, 3, 2] = [0, 1, 1 / 2]"
  by (simp add: spec_normalized_def)

text \<open>
  C1. For every non-empty batch the run succeeds and writes, for each entity, the
  normalized score \<open>(raw - min) / (max - min)\<close> when \<open>max > min\<close> and \<open>0\<close> when
  \<open>max = min\<close>; every normalized score is a finite float (never NaN) in \<open>[0, 1]\<close>.
\<close>

theorem batch_score_providers_normalizes:
  assumes "parquet w feature_path = Some df"
    and "id_column df = Some ids"
    and "wf_dataframe df"
    and "registry w (''models:/'' @ model_name @ ''@'' @ model_alias) = Some model"
    and "feature_names df = feature_names_in model"
    and "feature_rows df \<noteq> []"
  shows "\<exists>w' tbl.
           batch_score_providers today_str feature_path model_name model_alias output_dir w = (Inr (), w') \<and>
           (\<forall>p \<in> set (output_paths today_str output_dir). outputs w' p = Some tbl) \<and>
           map provider_id tbl = ids \<and>
           map fraud_risk_score tbl = map Fin (spec_normalized (raw_scores model df)) \<and>
           (\<forall>v \<in> set (spec_normalized (raw_scores model df)). 0 \<le> v \<and> v \<le> 1)"
proof -
  let ?raw = "raw_scores model df"
  let ?tbl = "score_table ids ?raw"
  have len: "length ids = length ?raw"
    using assms(3,2) by (rule length_raw_scores)
  have ne: "?raw \<noteq> []"
    using assms(6) by (simp add: raw_scores_def)
  have run: "batch_score_providers today_str feature_path model_name model_alias output_dir w =
               (Inr (), persist today_str output_dir ?tbl w)"
    using assms(1,2,4,5) by (rule batch_score_providers_success)
  have files: "\<forall>p \<in> set (output_paths today_str output_dir).
                 outputs (persist today_str output_dir ?tbl w) p = Some ?tbl"
    by (simp add: persist_outputs)
  have idcol: "map provider_id ?tbl = ids"
    using len by (rule map_provider_id_score_table)
  have scores: "map fraud_risk_score ?tbl = map Fin (spec_normalized ?raw)"
    using len ne by (simp add: map_score_score_table normalize_scores_spec)
  have range: "\<forall>v \<in> set (spec_normalized ?raw). 0 \<le> v \<and> v \<le> 1"
    using spec_normalized_range by blast
  from run files idcol scores range show ?thesis by blast
qed

theorem batch_score_providers_normalizes_witness:
  "parquet demo_world ''fraud_features.parquet'' = Some demo_df \<and>
   id_column demo_df = Some [101, 102, 103] \<and>
   wf_dataframe demo_df \<and>
   registry demo_world (''models:/'' @ ''fraud_model'' @ ''@'' @ ''staging'') = Some demo_model \<and>
   feature_names demo_df = feature_names_in demo_model \<and>
   feature_rows demo_df \<noteq> [] \<and>
   spec_normalized (raw_scores demo_model demo_df) = [0, 1, 1 / 2] \<and>
   (\<exists>w' tbl.
      batch_score_providers ''2026-01-05'' ''fraud_features.parquet'' ''fraud_model'' ''staging''
        ''data/outputs'' demo_world = (Inr (), w') \<and>
      (\<forall>p \<in> set (output_paths ''2026-01-05'' ''data/outputs''). outputs w' p = Some tbl) \<and>
      map provider_id tbl = [101, 102, 103] \<and>
      map fraud_risk_score tbl = map Fin (spec_normalized (raw_scores demo_model demo_df)) \<and>
      (\<forall>v \<in> set (spec_normalized (raw_scores demo_model demo_df)). 0 \<le> v \<and> v \<le> 1))"
proof -
  have h1: "parquet demo_world ''fraud_features.parquet'' = Some demo_df"
    by (simp add: demo_world_def)
  have h2: "id_column demo_df = Some [101, 102, 103]"
    by (simp add: demo_df_def)
  have h3: "wf_dataframe demo_df"
    by (simp add: demo_df_def wf_dataframe_def)
  have h4: "registry demo_world (''models:/'' @ ''fraud_model'' @ ''@'' @ ''staging'') = Some demo_model"
    by (simp add: demo_world_def)
  have h5: "feature_names demo_df = feature_names_in demo_model"
    by (simp add: demo_df_def demo_model_def)
  have h6: "feature_rows demo_df \<noteq> []"
    by (simp add: demo_df_def)
  have h7: "spec_normalized (raw_scores demo_model demo_df) = [0, 1, 1 / 2]"
    by (simp only: demo_raw_scores demo_spec_normalized)
  show ?thesis
    by (intro conjI h1 h2 h3 h4 h5 h6 h7 batch_score_providers_normalizes [OF h1 h2 h3 h4 h5 h6])
qed

lemma not_all_equal_Min_less_Max:
  fixes raw :: "real list"
  assumes "i < length raw" "j < length raw" "raw ! i \<noteq> raw ! j"
  shows "Min (set raw) < Max (set raw)"
proof -
  have fin: "finite (set raw)" by simp
  have mi: "raw ! i \<in> set raw" and mj: "raw ! j \<in> set raw" using assms by simp_all
  have "Min (set raw) \<le> raw ! i" "raw ! i \<le> Max (set raw)"
       "Min (set raw) \<le> raw ! j" "raw ! j \<le> Max (set raw)"
    using mi mj by simp_all
  with assms(3) show ?thesis by linarith
qed

lemma risk_band_score_table:
  "r \<in> set (score_table ids scores) \<Longrightarrow> risk_band r = assign_risk_band (fraud_risk_score r)"
  by (auto simp: score_table_def)

lemma spec_normalized_nth:
  assumes "Min (set raw) < Max (set raw)" "k < length raw"
  shows "spec_normalized raw ! k = (raw ! k - Min (set raw)) / (Max (set raw) - Min (set raw))"
  using assms by (simp add: spec_normalized_def)

lemma length_spec_normalized: "length (spec_normalized raw) = length raw"
  by (simp add: spec_normalized_def)

lemma score_table_nth:
  assumes "length ids = length raw" "Min (set raw) < Max (set raw)" "k < length raw"
  shows "fraud_risk_score (score_table ids raw ! k) =
           Fin ((raw ! k - Min (set raw)) / (Max (set raw) - Min (set raw)))"
proof -
  have ne: "raw \<noteq> []" using assms(3) by auto
  have "map fraud_risk_score (score_table ids raw) = map Fin (spec_normalized raw)"
    using assms(1) ne by (simp add: map_score_score_table normalize_scores_spec)
  then have "map fraud_risk_score (score_table ids raw) ! k = map Fin (spec_normalized raw) ! k"
    by simp
  moreover have "k < length (score_table ids raw)"
    using assms(1,3) by (simp add: score_table_def length_normalize_scores)
  ultimately show ?thesis
    using assms(2,3) by (simp add: spec_normalized_nth length_spec_normalized)
qed

lemma length_score_table:
  "length ids = length raw \<Longrightarrow> length (score_table ids raw) = length raw"
  by (simp add: score_table_def length_normalize_scores)

text \<open>
  C10. In a batch whose raw scores are not all equal, an entity attaining the maximum
  raw score gets the normalized score \<open>1\<close> and the band HIGH, one attaining the
  minimum gets \<open>0\<close>, and so the written table has at least one entity with band HIGH.
\<close>

theorem batch_score_providers_extremes:
  assumes "parquet w feature_path = Some df"
    and "id_column df = Some ids"
    and "wf_dataframe df"
    and "registry w (''models:/'' @ model_name @ ''@'' @ model_alias) = Some model"
    and "feature_names df = feature_names_in model"
    and "i < length (raw_scores model df)" and "j < length (raw_scores model df)"
    and "raw_scores model df ! i \<noteq> raw_scores model df ! j"
  shows "\<exists>w' tbl.
           batch_score_providers today_str feature_path model_name model_alias output_dir w = (Inr (), w') \<and>
           (\<forall>p \<in> set (output_paths today_str output_dir). outputs w' p = Some tbl) \<and>
           length tbl = length (raw_scores model df) \<and>
           (\<forall>k < length tbl. raw_scores model df ! k = Max (set (raw_scores model df)) \<longrightarrow>
                fraud_risk_score (tbl ! k) = Fin 1 \<and> risk_band (tbl ! k) = ''HIGH'') \<and>
           (\<forall>k < length tbl. raw_scores model df ! k = Min (set (raw_scores model df)) \<longrightarrow>
                fraud_risk_score (tbl ! k) = Fin 0) \<and>
           (\<exists>r \<in> set tbl. risk_band r = ''HIGH'')"
proof -
  let ?raw = "raw_scores model df"
  let ?tbl = "score_table ids ?raw"
  have len: "length ids = length ?raw"
    using assms(3,2) by (rule length_raw_scores)
  have lt: "Min (set ?raw) < Max (set ?raw)"
    using assms(6,7,8) by (rule not_all_equal_Min_less_Max)
  have ltbl: "length ?tbl = length ?raw"
    using len by (rule length_score_table)
  have run: "batch_score_providers today_str feature_path model_name model_alias output_dir w =
               (Inr (), persist today_str output_dir ?tbl w)"
    using assms(1,2,4,5) by (rule batch_score_providers_success)
  have files: "\<forall>p \<in> set (output_paths today_str output_dir).
                 outputs (persist today_str output_dir ?tbl w) p = Some ?tbl"
    by (simp add: persist_outputs)
  have band: "risk_band (?tbl ! k) = assign_risk_band (fraud_risk_score (?tbl ! k))"
    if "k < length ?tbl" for k
    using that by (rule risk_band_score_table [OF nth_mem])
  have top: "fraud_risk_score (?tbl ! k) = Fin 1 \<and> risk_band (?tbl ! k) = ''HIGH''"
    if k: "k < length ?tbl" and mx: "?raw ! k = Max (set ?raw)" for k
  proof -
    have "fraud_risk_score (?tbl ! k) = Fin 1"
      using score_table_nth [OF len lt, of k] k ltbl lt mx by simp
    then show ?thesis using band [OF k] by (simp add: assign_risk_band_Fin)
  qed
  have bot: "fraud_risk_score (?tbl ! k) = Fin 0"
    if k: "k < length ?tbl" and mn: "?raw ! k = Min (set ?raw)" for k
    using score_table_nth [OF len lt, of k] k ltbl mn by simp
  have "?raw \<noteq> []" using assms(6) by auto
  then have "Max (set ?raw) \<in> set ?raw" by simp
  then obtain k where k: "k < length ?raw" and mx: "?raw ! k = Max (set ?raw)"
    by (auto simp: in_set_conv_nth)
  have "?tbl ! k \<in> set ?tbl" using k ltbl by simp
  moreover have "risk_band (?tbl ! k) = ''HIGH''" using top k ltbl mx by simp
  ultimately have high: "\<exists>r \<in> set ?tbl. risk_band r = ''HIGH''" by blast
  from run files ltbl top bot high show ?thesis by blast
qed

theorem batch_score_providers_extremes_witness:
  "parquet demo_world ''fraud_features.parquet'' = Some demo_df \<and>
   id_column demo_df = Some [101, 102, 103] \<and>
   wf_dataframe demo_df \<and>
   registry demo_world (''models:/'' @ ''fraud_model'' @ ''@'' @ ''staging'') = Some demo_model \<and>
   feature_names demo_df = feature_names_in demo_model \<and>
   (0::nat) < length (raw_scores demo_model demo_df) \<and>
   (1::nat) < length (raw_scores demo_model demo_df) \<and>
   raw_scores demo_model demo_df ! 0 \<noteq> raw_scores demo_model demo_df ! 1 \<and>
   raw_scores demo_model demo_df = [1, 3, 2] \<and>
   (\<exists>w' tbl.
      batch_score_providers ''2026-01-05'' ''fraud_features.parquet'' ''fraud_model'' ''staging''
        ''data/outputs'' demo_world = (Inr (), w') \<and>
      (\<forall>p \<in> set (output_paths ''2026-01-05'' ''data/outputs''). outputs w' p = Some tbl) \<and>
      length tbl = length (raw_scores demo_model demo_df) \<and>
      (\<forall>k < length tbl. raw_scores demo_model demo_df ! k = Max (set (raw_scores demo_model demo_df)) \<longrightarrow>
           fraud_risk_score (tbl ! k) = Fin 1 \<and> risk_band (tbl ! k) = ''HIGH'') \<and>
      (\<forall>k < length tbl. raw_scores demo_model demo_df ! k = Min (set (raw_scores demo_model demo_df)) \<longrightarrow>
           fraud_risk_score (tbl ! k) = Fin 0) \<and>
      (\<exists>r \<in> set tbl. risk_band r = ''HIGH''))"
proof -
  have h1: "parquet demo_world ''fraud_features.parquet'' = Some demo_df"
    by (simp add: demo_world_def)
  have h2: "id_column demo_df = Some [101, 102, 103]"
    by (simp add: demo_df_def)
  have h3: "wf_dataframe demo_df"
    by (simp add: demo_df_def wf_dataframe_def)
  have h4: "registry demo_world (''models:/'' @ ''fraud_model'' @ ''@'' @ ''staging'') = Some demo_model"
    by (simp add: demo_world_def)
  have h5: "feature_names demo_df = feature_names_in demo_model"
    by (simp add: demo_df_def demo_model_def)
  have h6: "(0::nat) < length (raw_scores demo_model demo_df)"
    by (simp add: demo_raw_scores)
  have h7: "(1::nat) < length (raw_scores demo_model demo_df)"
    by (simp add: demo_raw_scores)
  have h8: "raw_scores demo_model demo_df ! 0 \<noteq> raw_scores demo_model demo_df ! 1"
    by (simp add: demo_raw_scores)
  show ?thesis
    by (intro conjI h1 h2 h3 h4 h5 h6 h7 h8 demo_raw_scores
          batch_score_providers_extremes [OF h1 h2 h3 h4 h5 h6 h7 h8])
qed

text \<open>
  C7. When the feature columns of the table differ from those the model was fitted on,
  the run ends with SchemaMismatch and the world is as before: no directory is made and
  no output file, latest or dated, is created or changed.
\<close>

theorem batch_score_providers_schema_mismatch:
  assumes "parquet w feature_path = Some df"
    and "id_column df = Some ids"
    and "registry w (''models:/'' @ model_name @ ''@'' @ model_alias) = Some model"
    and "feature_names df \<noteq> feature_names_in model"
  shows "batch_score_providers today_str feature_path model_name model_alias output_dir w =
           (Inl SchemaMismatch, w) \<and>
         (\<forall>p \<in> set (output_paths today_str output_dir).
            outputs (snd (batch_score_providers today_str feature_path model_name model_alias
                            output_dir w)) p = outputs w p)"
  using assms
  by (simp add: batch_score_providers_def score_samples_def Let_def)

theorem batch_score_providers_schema_mismatch_witness:
  "parquet demo_world_mismatch ''fraud_features.parquet'' = Some demo_df \<and>
   id_column demo_df = Some [101, 102, 103] \<and>
   registry demo_world_mismatch (''models:/'' @ ''fraud_model'' @ ''@'' @ ''staging'') = Some demo_model_two \<and>
   feature_names demo_df \<noteq> feature_names_in demo_model_two \<and>
   batch_score_providers ''2026-01-05'' ''fraud_features.parquet'' ''fraud_model'' ''staging''
        ''data/outputs'' demo_world_mismatch = (Inl SchemaMismatch, demo_world_mismatch) \<and>
   outputs demo_world_mismatch = Map.empty"
proof -
  have h1: "parquet demo_world_mismatch ''fraud_features.parquet'' = Some demo_df"
    by (simp add: demo_world_mismatch_def)
  have h2: "id_column demo_df = Some [101, 102, 103]"
    by (simp add: demo_df_def)
  have h3: "registry demo_world_mismatch (''models:/'' @ ''fraud_model'' @ ''@'' @ ''staging'') = Some demo_model_two"
    by (simp add: demo_world_mismatch_def)
  have h4: "feature_names demo_df \<noteq> feature_names_in demo_model_two"
    by (simp add: demo_df_def demo_model_two_def)
  have h5: "outputs demo_world_mismatch = Map.empty"
    by (simp add: demo_world_mismatch_def)
  show ?thesis
    by (intro conjI h1 h2 h3 h4 h5
          conjunct1 [OF batch_score_providers_schema_mismatch [OF h1 h2 h3 h4]])
qed

section \<open>Properties of the stability evaluation\<close>

lemma stability_runs_success:
  assumes "\<forall>i \<in> set todo. fit (build_fraud_pipeline c (base + int i)) names rows = Inr (m i) \<and>
                          feature_names_in (m i) = names"
  shows "stability_runs fit names rows ids c base todo =
           Inr (map (\<lambda>i. run_frame ids (map (\<lambda>r. - sample_score (m i) r) rows) i) todo)"
  using assms
  by (induction todo) (simp_all add: score_samples_def Let_def o_def)

lemma evaluate_model_stability_no_runs:
  assumes "n_runs \<le> 0"
  shows "evaluate_model_stability fit argsort w feature_path c base n_runs top_n =
     (case parquet w feature_path of
        None \<Rightarrow> Inl FileNotFoundError
      | Some df \<Rightarrow>
          (case id_column df of
             None \<Rightarrow> Inl (KeyError ''provider_id'')
           | Some ids \<Rightarrow> Inl (ValueError ''No objects to concatenate'')))"
  using assms
  by (simp add: evaluate_model_stability_def concat_frames_def split: option.splits)

text \<open>
  C6, as the code has it. Building the pipeline never fails: for every contamination and
  seed it returns the three steps, with the tree count fixed at 200 and no subsample
  setting. With a run count of zero or less the evaluation reads the feature table first,
  builds no pipeline, and ends with the error of the read, of the missing identifier
  column, or of \<^verbatim>\<open>pd.concat\<close> on no frames; never with InvalidHyperparameter.
\<close>

theorem pipeline_construction_checks_nothing:
  "build_fraud_pipeline c s =
     [(''imputer'', SimpleImputer ''median''), (''scaler'', StandardScaler),
      (''model'', IsolationForest \<lparr>n_estimators = 200, contamination = c, random_state = s, n_jobs = - 1\<rparr>)] \<and>
   (n_runs \<le> 0 \<longrightarrow>
      evaluate_model_stability fit argsort w feature_path c base n_runs top_n =
        (case parquet w feature_path of
           None \<Rightarrow> Inl FileNotFoundError
         | Some df \<Rightarrow>
             (case id_column df of
                None \<Rightarrow> Inl (KeyError ''provider_id'')
              | Some ids \<Rightarrow> Inl (ValueError ''No objects to concatenate''))) \<and>
      evaluate_model_stability fit argsort w feature_path c base n_runs top_n \<noteq> Inl InvalidHyperparameter)"
proof (intro conjI impI)
  show "build_fraud_pipeline c s =
     [(''imputer'', SimpleImputer ''median''), (''scaler'', StandardScaler),
      (''model'', IsolationForest \<lparr>n_estimators = 200, contamination = c, random_state = s, n_jobs = - 1\<rparr>)]"
    by (simp add: build_fraud_pipeline_def)
next
  assume n: "n_runs \<le> 0"
  then show e: "evaluate_model_stability fit argsort w feature_path c base n_runs top_n =
        (case parquet w feature_path of
           None \<Rightarrow> Inl FileNotFoundError
         | Some df \<Rightarrow>
             (case id_column df of
                None \<Rightarrow> Inl (KeyError ''provider_id'')
              | Some ids \<Rightarrow> Inl (ValueError ''No objects to concatenate'')))"
    by (rule evaluate_model_stability_no_runs)
  show "evaluate_model_stability fit argsort w feature_path c base n_runs top_n \<noteq> Inl InvalidHyperparameter"
    unfolding e by (simp split: option.splits)
qed

lemma overlap_ratios_success:
  "top_n \<noteq> 0 \<Longrightarrow>
     overlap_ratios top_n sets =
       Inr (map (\<lambda>i. real (card (sets ! i \<inter> sets ! Suc i)) / real_of_int top_n) [0..<length sets - 1])"
proof (induction top_n sets rule: overlap_ratios.induct)
  case (1 top_n a b rest)
  have "[0..<Suc (length rest)] = 0 # map Suc [0..<length rest]"
    by (simp add: upt_conv_Cons map_Suc_upt del: upt_Suc)
  with 1 show ?case by (simp add: o_def del: upt_Suc)
qed simp_all

lemma sum_list_sq_expand:
  fixes zs :: "(real \<times> real) list"
  shows "(\<Sum>(a, b)\<leftarrow>zs. (a * t - b) * (a * t - b)) =
           t * t * (\<Sum>(a, b)\<leftarrow>zs. a * a) - 2 * t * (\<Sum>(a, b)\<leftarrow>zs. a * b) + (\<Sum>(a, b)\<leftarrow>zs. b * b)"
  by (induction zs) (auto simp: algebra_simps)

lemma sum_list_sq_nonneg:
  fixes zs :: "(real \<times> real) list" and f :: "real \<Rightarrow> real \<Rightarrow> real"
  shows "0 \<le> (\<Sum>(a, b)\<leftarrow>zs. f a b * f a b)"
  by (rule sum_list_nonneg) auto

lemma cauchy_schwarz_list:
  fixes zs :: "(real \<times> real) list"
  defines "A \<equiv> (\<Sum>(a, b)\<leftarrow>zs. a * a)"
    and "B \<equiv> (\<Sum>(a, b)\<leftarrow>zs. b * b)"
    and "C \<equiv> (\<Sum>(a, b)\<leftarrow>zs. a * b)"
  shows "C * C \<le> A * B"
proof -
  have poly: "0 \<le> t * t * A - 2 * t * C + B" for t
    using sum_list_sq_nonneg [of "\<lambda>a b. a * t - b" zs]
    by (simp add: sum_list_sq_expand A_def B_def C_def)
  have A0: "0 \<le> A" unfolding A_def using sum_list_sq_nonneg [of "\<lambda>a b. a" zs] by simp
  have B0: "0 \<le> B" unfolding B_def using sum_list_sq_nonneg [of "\<lambda>a b. b" zs] by simp
  show ?thesis
  proof (cases "A = 0")
    case True
    have "C = 0"
    proof (rule ccontr)
      assume "C \<noteq> 0"
      from poly [of "(B + 1) / (2 * C)"] True \<open>C \<noteq> 0\<close> show False by simp
    qed
    with True show ?thesis by simp
  next
    case False
    with A0 have Apos: "0 < A" by simp
    from poly [of "C / A"] have "0 \<le> C * C / A - 2 * (C * C) / A + B"
      using Apos by (simp add: field_simps)
    then have "C * C / A \<le> B" by simp
    then show ?thesis using Apos by (simp add: field_simps)
  qed
qed

lemma sum_list_swap:
  "(\<Sum>(x, y)\<leftarrow>map prod.swap ps. f x y) = (\<Sum>(x, y)\<leftarrow>ps. f y x)"
  by (simp add: o_def case_prod_unfold)

lemma sum_list_cov_commute:
  fixes ps :: "(real \<times> real) list"
  shows "(\<Sum>(x, y)\<leftarrow>ps. (y - b) * (x - a)) = (\<Sum>(x, y)\<leftarrow>ps. (x - a) * (y - b))"
  by (rule arg_cong [where f = sum_list], rule map_cong [OF refl]) (simp add: case_prod_unfold)

lemma pearson_swap: "pearson (map prod.swap ps) = pearson ps"
  unfolding pearson_def Let_def sum_list_swap length_map sum_list_cov_commute
  by (simp only: mult.commute [of "(\<Sum>(x, y)\<leftarrow>ps. (y - (\<Sum>(x, y)\<leftarrow>ps. y) / real (length ps)) * (y - (\<Sum>(x, y)\<leftarrow>ps. y) / real (length ps)))"])

lemma pearson_range:
  "pearson ps = NaN \<or> (\<exists>v. pearson ps = Fin v \<and> - 1 \<le> v \<and> v \<le> 1)"
proof -
  define mx where "mx = (\<Sum>(x, y)\<leftarrow>ps. x) / real (length ps)"
  define my where "my = (\<Sum>(x, y)\<leftarrow>ps. y) / real (length ps)"
  define zs where "zs = map (\<lambda>(x, y). (x - mx, y - my)) ps"
  define A where "A = (\<Sum>(a, b)\<leftarrow>zs. a * a)"
  define B where "B = (\<Sum>(a, b)\<leftarrow>zs. b * b)"
  define C where "C = (\<Sum>(a, b)\<leftarrow>zs. a * b)"
  have A: "(\<Sum>(x, y)\<leftarrow>ps. (x - mx) * (x - mx)) = A"
    by (simp add: A_def zs_def o_def case_prod_unfold)
  have B: "(\<Sum>(x, y)\<leftarrow>ps. (y - my) * (y - my)) = B"
    by (simp add: B_def zs_def o_def case_prod_unfold)
  have C: "(\<Sum>(x, y)\<leftarrow>ps. (x - mx) * (y - my)) = C"
    by (simp add: C_def zs_def o_def case_prod_unfold)
  have p: "pearson ps =
      (if length ps < 1 then NaN else if sqrt (A * B) \<noteq> 0 then Fin (C / sqrt (A * B)) else NaN)"
    by (simp add: pearson_def Let_def A B C mx_def [symmetric] my_def [symmetric])
  have cs: "C * C \<le> A * B"
    unfolding A_def B_def C_def by (rule cauchy_schwarz_list)
  define d where "d = sqrt (A * B)"
  have p': "pearson ps = (if length ps < 1 then NaN else if d \<noteq> 0 then Fin (C / d) else NaN)"
    unfolding d_def by (rule p)
  have "0 \<le> A * B" using cs by (rule order_trans [OF zero_le_square])
  then have d0: "0 \<le> d" unfolding d_def by (simp only: real_sqrt_ge_zero)
  have "sqrt (C * C) \<le> sqrt (A * B)" using cs by (simp only: real_sqrt_le_iff)
  then have absC: "\<bar>C\<bar> \<le> d" unfolding d_def by (simp only: real_sqrt_abs2)
  show ?thesis
  proof (cases "length ps < 1 \<or> d = 0")
    case True
    then have "pearson ps = NaN" by (auto simp: p')
    then show ?thesis by (rule disjI1)
  next
    case False
    then have dpos: "0 < d" using d0 by simp
    from False have val: "pearson ps = Fin (C / d)" by (simp add: p')
    from absC have "- d \<le> C" and "C \<le> d" by (simp_all add: abs_le_iff) 
    then have "- 1 \<le> C / d" and "C / d \<le> 1"
      using dpos by (simp_all add: pos_le_divide_eq pos_divide_le_eq)
    with val show ?thesis by blast
  qed
qed

lemma sum_list_dev_zero_iff:
  fixes xs :: "real list"
  shows "(\<Sum>x\<leftarrow>xs. (x - c) * (x - c)) = 0 \<longleftrightarrow> (\<forall>x \<in> set xs. x = c)"
proof -
  have "(\<Sum>x\<leftarrow>xs. (x - c) * (x - c)) = 0 \<longleftrightarrow> (\<forall>v \<in> set (map (\<lambda>x. (x - c) * (x - c)) xs). v = 0)"
    by (rule sum_list_nonneg_eq_0_iff) auto
  also have "\<dots> \<longleftrightarrow> (\<forall>x \<in> set xs. x = c)" by simp
  finally show ?thesis .
qed

lemma mean_of_constant:
  fixes xs :: "real list"
  assumes "xs \<noteq> []" "\<forall>x \<in> set xs. x = c"
  shows "sum_list xs / real (length xs) = c"
proof -
  have "xs = replicate (length xs) c"
    using assms(2) by (simp add: replicate_length_same)
  then have "sum_list xs = real (length xs) * c"
    by (metis sum_list_replicate)
  with assms(1) show ?thesis by simp
qed

lemma pearson_diagonal:
  fixes xs :: "real list"
  shows "pearson (map (\<lambda>x. (x, x)) xs) =
           (if \<exists>a \<in> set xs. \<exists>b \<in> set xs. a \<noteq> b then Fin 1 else NaN)"
proof -
  define mu where "mu = sum_list xs / real (length xs)"
  define S where "S = (\<Sum>x\<leftarrow>xs. (x - mu) * (x - mu))"
  have S0: "0 \<le> S" unfolding S_def by (rule sum_list_nonneg) auto
  have p: "pearson (map (\<lambda>x. (x, x)) xs) =
      (if length xs < 1 then NaN else if sqrt (S * S) \<noteq> 0 then Fin (S / sqrt (S * S)) else NaN)"
    by (simp add: pearson_def Let_def o_def S_def mu_def)
  have sq: "\<bar>S\<bar> = S" using S0 by (rule abs_of_nonneg)
  show ?thesis
  proof (cases "\<exists>a \<in> set xs. \<exists>b \<in> set xs. a \<noteq> b")
    case True
    then have ne: "xs \<noteq> []" by auto
    have "\<not> (\<forall>x \<in> set xs. x = mu)" using True by metis
    then have "S \<noteq> 0" unfolding S_def by (simp only: sum_list_dev_zero_iff not_False_eq_True)
    with ne True show ?thesis by (simp add: p sq)
  next
    case False
    show ?thesis
    proof (cases "xs = []")
      case True
      then show ?thesis by (simp add: pearson_def)
    next
      case ne: False
      define c where "c = hd xs"
      have allc: "\<forall>x \<in> set xs. x = c" using False ne by (auto simp: c_def)
      have "mu = c" unfolding mu_def using ne allc by (rule mean_of_constant)
      with allc have "S = 0" unfolding S_def by (simp only: sum_list_dev_zero_iff)
      with False show ?thesis by (simp add: p)
    qed
  qed
qed

lemma complete_pairs_swap:
  "complete_pairs ys xs = map prod.swap (complete_pairs xs ys)"
proof (induction xs arbitrary: ys)
  case Nil
  then show ?case by (simp add: complete_pairs_def)
next
  case (Cons x xs)
  show ?case
  proof (cases ys)
    case Nil
    then show ?thesis by (simp add: complete_pairs_def)
  next
    case (Cons y ys')
    with Cons.IH [of ys'] show ?thesis
      by (simp add: complete_pairs_def split: option.splits)
  qed
qed

lemma complete_pairs_Some:
  "complete_pairs (map (\<lambda>p. Some (f p)) ps) (map (\<lambda>p. Some (g p)) ps) = map (\<lambda>p. (f p, g p)) ps"
  by (induction ps) (simp_all add: complete_pairs_def)

lemma length_corr: "length (corr pv) = length (columns pv)"
  by (simp add: corr_def)

lemma length_corr_row: "i < length (columns pv) \<Longrightarrow> length (corr pv ! i) = length (columns pv)"
  by (simp add: corr_def)

lemma corr_nth:
  "i < length (columns pv) \<Longrightarrow> j < length (columns pv) \<Longrightarrow>
     corr pv ! i ! j = pearson (complete_pairs (column pv (columns pv ! i)) (column pv (columns pv ! j)))"
  by (simp add: corr_def)

lemma corr_symmetric:
  assumes "i < length (columns pv)" "j < length (columns pv)"
  shows "corr pv ! i ! j = corr pv ! j ! i"
proof -
  have "complete_pairs (column pv (columns pv ! j)) (column pv (columns pv ! i)) =
          map prod.swap (complete_pairs (column pv (columns pv ! i)) (column pv (columns pv ! j)))"
    by (rule complete_pairs_swap)
  then show ?thesis using assms by (simp only: corr_nth pearson_swap)
qed

lemma all_frames_Suc:
  "all_frames ids S (Suc N) = all_frames ids S N @ run_frame ids (S N) N"
  by (simp add: all_frames_def)

lemma all_frames_0: "all_frames ids S 0 = []"
  by (simp add: all_frames_def)

lemma run_frame_ids:
  "length s = length ids \<Longrightarrow> map row_provider_id (run_frame ids s i) = ids"
  by (simp add: run_frame_def o_def case_prod_unfold)


lemma run_frame_run: "row \<in> set (run_frame ids s i) \<Longrightarrow> run row = i"
  by (auto simp: run_frame_def)

lemma length_run_frame: "length s = length ids \<Longrightarrow> length (run_frame ids s i) = length ids"
  by (simp add: run_frame_def)


lemma all_frames_run: "row \<in> set (all_frames ids S N) \<Longrightarrow> run row < N"
  by (auto simp: all_frames_def dest: run_frame_run)




lemma all_equal_mean:
  assumes "xs \<noteq> []"
  shows "(\<forall>x \<in> set xs. x = sum_list xs / real (length xs)) \<longleftrightarrow> all_equal xs"
proof
  assume "\<forall>x \<in> set xs. x = sum_list xs / real (length xs)"
  then show "all_equal xs" unfolding all_equal_def by metis
next
  assume a: "all_equal xs"
  have "\<forall>x \<in> set xs. x = hd xs" using a assms by (simp add: all_equal_def)
  with assms have "sum_list xs / real (length xs) = hd xs" by (rule mean_of_constant)
  with \<open>\<forall>x \<in> set xs. x = hd xs\<close> show "\<forall>x \<in> set xs. x = sum_list xs / real (length xs)" by simp
qed

lemma ssqdm_zero_iff:
  fixes xs :: "real list"
  assumes "xs \<noteq> []"
  shows "(\<Sum>x\<leftarrow>xs. (x - sum_list xs / real (length xs)) * (x - sum_list xs / real (length xs))) = 0
           \<longleftrightarrow> all_equal xs"
  using all_equal_mean [OF assms] by (simp only: sum_list_dev_zero_iff)

lemma pearson_NaN_iff:
  "pearson ps = NaN \<longleftrightarrow> all_equal (map fst ps) \<or> all_equal (map snd ps)"
proof (cases "ps = []")
  case True
  then show ?thesis by (simp add: pearson_def all_equal_def)
next
  case False
  define xs where "xs = map fst ps"
  define ys where "ys = map snd ps"
  define A where "A = (\<Sum>x\<leftarrow>xs. (x - sum_list xs / real (length xs)) * (x - sum_list xs / real (length xs)))"
  define B where "B = (\<Sum>y\<leftarrow>ys. (y - sum_list ys / real (length ys)) * (y - sum_list ys / real (length ys)))"
  have ne: "xs \<noteq> []" "ys \<noteq> []" using False by (simp_all add: xs_def ys_def)
  have p: "pearson ps = NaN \<longleftrightarrow> sqrt (A * B) = 0"
    using False
    by (simp add: pearson_def Let_def A_def B_def xs_def ys_def o_def case_prod_unfold)
  have "sqrt (A * B) = 0 \<longleftrightarrow> A = 0 \<or> B = 0" by simp
  also have "\<dots> \<longleftrightarrow> all_equal xs \<or> all_equal ys"
    unfolding A_def B_def by (simp only: ssqdm_zero_iff [OF ne(1)] ssqdm_zero_iff [OF ne(2)])
  finally show ?thesis using p by (simp add: xs_def ys_def)
qed

lemma all_equal_cong: "set xs = set ys \<Longrightarrow> all_equal xs = all_equal ys"
  by (simp add: all_equal_def)

lemma pearson_entry:
  "(if all_equal (map fst ps) \<or> all_equal (map snd ps) then pearson ps = NaN
    else \<exists>v. pearson ps = Fin v \<and> - 1 \<le> v \<and> v \<le> 1)"
  using pearson_NaN_iff [of ps] pearson_range [of ps] by auto

lemma pearson_diagonal_entry:
  "(if all_equal xs then pearson (map (\<lambda>x. (x, x)) xs) = NaN
    else pearson (map (\<lambda>x. (x, x)) xs) = Fin 1)"
  by (auto simp: pearson_diagonal all_equal_def)

lemma keyed_append: "keyed (xs @ ys) = keyed xs @ keyed ys"
  by (simp add: keyed_def)

lemma keyed_run_frame:
  "keyed (run_frame ids s j) = map (\<lambda>(p, v). ((p, j), v)) (zip ids s)"
  by (simp add: keyed_def run_frame_def o_def case_prod_unfold)

lemma map_of_tagged:
  "map_of (map (\<lambda>(p, v). ((p, j), v)) zs) (p, i) = (if i = j then map_of zs p else None)"
  by (induction zs) auto

lemma map_of_keyed_run_frame:
  "map_of (keyed (run_frame ids s j)) (p, i) = (if i = j then map_of (zip ids s) p else None)"
  by (simp only: keyed_run_frame map_of_tagged)

lemma map_of_keyed_all_frames:
  "map_of (keyed (all_frames ids S N)) (p, i) = (if i < N then map_of (zip ids (S i)) p else None)"
proof (induction N)
  case 0
  then show ?case by (simp add: all_frames_0 keyed_def)
next
  case (Suc N)
  then show ?case
    by (auto simp: all_frames_Suc keyed_append map_add_def map_of_keyed_run_frame less_Suc_eq
             split: option.splits)
qed

lemma keys_run_frame:
  "length s = length ids \<Longrightarrow>
     map (\<lambda>r. (row_provider_id r, run r)) (run_frame ids s j) = map (\<lambda>p. (p, j)) ids"
proof -
  assume len: "length s = length ids"
  have "map (\<lambda>r. (row_provider_id r, run r)) (run_frame ids s j) =
          map (\<lambda>z. (fst z, j)) (zip ids s)"
    by (simp add: run_frame_def o_def case_prod_unfold)
  also have "\<dots> = map (\<lambda>p. (p, j)) (map fst (zip ids s))"
    by (simp add: o_def)
  also have "\<dots> = map (\<lambda>p. (p, j)) ids"
    using len by simp
  finally show ?thesis .
qed

lemma distinct_keys_all_frames:
  assumes "distinct ids" "\<forall>i < N. length (S i) = length ids"
  shows "distinct (map (\<lambda>r. (row_provider_id r, run r)) (all_frames ids S N))"
  using assms(2)
proof (induction N)
  case 0
  then show ?case by (simp add: all_frames_0)
next
  case (Suc N)
  have d1: "distinct (map (\<lambda>r. (row_provider_id r, run r)) (all_frames ids S N))"
    using Suc by simp
  have k: "map (\<lambda>r. (row_provider_id r, run r)) (run_frame ids (S N) N) = map (\<lambda>p. (p, N)) ids"
    using Suc.prems by (simp add: keys_run_frame)
  have d2: "distinct (map (\<lambda>p. (p, N)) ids)"
    using assms(1) by (simp add: distinct_map inj_on_def)
  have disj: "set (map (\<lambda>r. (row_provider_id r, run r)) (all_frames ids S N)) \<inter>
              set (map (\<lambda>p. (p, N)) ids) = {}"
    by (auto dest: all_frames_run)
  show ?case using d1 d2 disj by (simp only: all_frames_Suc map_append distinct_append k simp_thms)
qed

lemma set_runs_all_frames:
  assumes "ids \<noteq> []" "\<forall>i < N. length (S i) = length ids"
  shows "set (map run (all_frames ids S N)) = {0..<N}"
proof
  show "set (map run (all_frames ids S N)) \<subseteq> {0..<N}"
    by (auto dest: all_frames_run)
next
  show "{0..<N} \<subseteq> set (map run (all_frames ids S N))"
  proof
    fix i assume "i \<in> {0..<N}"
    then have i: "i < N" by simp
    then have "length (run_frame ids (S i) i) = length ids"
      using assms(2) by (simp add: length_run_frame)
    with assms(1) have "run_frame ids (S i) i \<noteq> []" by auto
    then obtain row where row: "row \<in> set (run_frame ids (S i) i)"
      by (cases "run_frame ids (S i) i") auto
    then have "run row = i" by (rule run_frame_run)
    moreover have "row \<in> set (all_frames ids S N)"
      using row i by (auto simp: all_frames_def)
    ultimately show "i \<in> set (map run (all_frames ids S N))" by force
  qed
qed

lemma set_ids_all_frames:
  assumes "0 < N" "\<forall>i < N. length (S i) = length ids"
  shows "set (map row_provider_id (all_frames ids S N)) = set ids"
proof -
  have "set (map row_provider_id (all_frames ids S N)) =
          (\<Union>i \<in> {0..<N}. set (map row_provider_id (run_frame ids (S i) i)))"
    by (auto simp: all_frames_def)
  also have "\<dots> = (\<Union>i \<in> {0..<N}. set ids)"
    using assms(2) by (simp add: run_frame_ids)
  also have "\<dots> = set ids" using assms(1) by auto
  finally show ?thesis .
qed

lemma columns_all_frames:
  assumes "ids \<noteq> []" "\<forall>i < N. length (S i) = length ids"
  shows "sort (remdups (map run (all_frames ids S N))) = [0..<N]"
proof (rule sorted_distinct_set_unique)
  show "set (sort (remdups (map run (all_frames ids S N)))) = set [0..<N]"
    using set_runs_all_frames [OF assms] by simp
qed simp_all

lemma score_of_nth:
  "length s = length ids \<Longrightarrow> distinct ids \<Longrightarrow> k < length ids \<Longrightarrow> score_of ids s (ids ! k) = s ! k"
  by (simp add: score_of_def map_of_zip_nth)

lemma map_score_of:
  assumes "length s = length ids" "distinct ids"
  shows "map (score_of ids s) ids = s"
  using assms by (intro nth_equalityI) (simp_all add: score_of_nth)

lemma score_of_image:
  assumes "length s = length ids" "distinct ids"
  shows "score_of ids s ` set ids = set s"
proof -
  have "score_of ids s ` set ids = set (map (score_of ids s) ids)" by simp
  also have "\<dots> = set s" using assms by (simp only: map_score_of)
  finally show ?thesis .
qed

lemma map_of_zip_score_of:
  assumes "length s = length ids" "p \<in> set ids"
  shows "map_of (zip ids s) p = Some (score_of ids s p)"
proof -
  have "p \<in> dom (map_of (zip ids s))" using assms by (simp add: dom_map_of_zip)
  then show ?thesis by (auto simp: score_of_def)
qed

lemma pivot_all_frames:
  assumes "distinct ids" "\<forall>i < N. length (S i) = length ids"
  shows "pivot (all_frames ids S N) = Inr (pivot_of_frames ids S N)"
  using distinct_keys_all_frames [OF assms]
  by (simp add: pivot_def pivot_of_frames_def keyed_def)

lemma columns_pivot_of_frames:
  assumes "ids \<noteq> []" "\<forall>i < N. length (S i) = length ids"
  shows "columns (pivot_of_frames ids S N) = [0..<N]"
  using columns_all_frames [OF assms] by (simp add: pivot_of_frames_def)

lemma set_index_pivot_of_frames:
  assumes "0 < N" "\<forall>i < N. length (S i) = length ids"
  shows "set (index (pivot_of_frames ids S N)) = set ids"
  using set_ids_all_frames [OF assms] by (simp add: pivot_of_frames_def)

lemma column_pivot_of_frames:
  assumes "r < N" "\<forall>i < N. length (S i) = length ids"
  shows "column (pivot_of_frames ids S N) r =
           map (\<lambda>p. Some (score_of ids (S r) p)) (index (pivot_of_frames ids S N))"
proof -
  have N: "0 < N" using assms(1) by simp
  have len: "length (S r) = length ids" using assms by simp
  have "column (pivot_of_frames ids S N) r =
          map (\<lambda>p. map_of (zip ids (S r)) p) (index (pivot_of_frames ids S N))"
    using assms(1) by (simp add: column_def pivot_of_frames_def map_of_keyed_all_frames)
  also have "\<dots> = map (\<lambda>p. Some (score_of ids (S r) p)) (index (pivot_of_frames ids S N))"
  proof (rule map_cong [OF refl])
    fix p assume "p \<in> set (index (pivot_of_frames ids S N))"
    then have "p \<in> set ids" using set_index_pivot_of_frames [OF N assms(2)] by simp
    with len show "map_of (zip ids (S r)) p = Some (score_of ids (S r) p)"
      by (rule map_of_zip_score_of)
  qed
  finally show ?thesis .
qed

lemma set_column_scores:
  assumes "r < N" "\<forall>i < N. length (S i) = length ids" "distinct ids"
  shows "set (map (score_of ids (S r)) (index (pivot_of_frames ids S N))) = set (S r)"
proof -
  have N: "0 < N" using assms(1) by simp
  have "set (map (score_of ids (S r)) (index (pivot_of_frames ids S N))) =
          score_of ids (S r) ` set ids"
    using set_index_pivot_of_frames [OF N assms(2)] by simp
  also have "\<dots> = set (S r)" using assms by (simp add: score_of_image)
  finally show ?thesis .
qed

lemma corr_pivot_of_frames_entry:
  assumes "i < N" "j < N" "\<forall>i < N. length (S i) = length ids" "ids \<noteq> []"
  shows "corr (pivot_of_frames ids S N) ! i ! j =
           pearson (map (\<lambda>p. (score_of ids (S i) p, score_of ids (S j) p))
                      (index (pivot_of_frames ids S N)))"
proof -
  have cols: "columns (pivot_of_frames ids S N) = [0..<N]"
    using assms(4,3) by (rule columns_pivot_of_frames)
  have "corr (pivot_of_frames ids S N) ! i ! j =
          pearson (complete_pairs (column (pivot_of_frames ids S N) i) (column (pivot_of_frames ids S N) j))"
    using assms(1,2) by (simp add: corr_nth cols)
  then show ?thesis
    using assms(1,2,3) by (simp only: column_pivot_of_frames complete_pairs_Some)
qed

lemma corr_pivot_of_frames:
  assumes "i < N" "j < N" "\<forall>i < N. length (S i) = length ids" "ids \<noteq> []" "distinct ids"
  shows "(if all_equal (S i) \<or> all_equal (S j)
          then corr (pivot_of_frames ids S N) ! i ! j = NaN
          else \<exists>v. corr (pivot_of_frames ids S N) ! i ! j = Fin v \<and> - 1 \<le> v \<and> v \<le> 1 \<and>
                   (i = j \<longrightarrow> v = 1))"
proof -
  let ?ix = "index (pivot_of_frames ids S N)"
  let ?ps = "map (\<lambda>p. (score_of ids (S i) p, score_of ids (S j) p)) ?ix"
  have e: "corr (pivot_of_frames ids S N) ! i ! j = pearson ?ps"
    using assms(1-4) by (rule corr_pivot_of_frames_entry)
  have mf: "map fst ?ps = map (score_of ids (S i)) ?ix"
    and ms: "map snd ?ps = map (score_of ids (S j)) ?ix"
    by (simp_all add: o_def)
  have fi: "all_equal (map fst ?ps) = all_equal (S i)"
    unfolding mf using set_column_scores [OF assms(1,3,5)] by (rule all_equal_cong)
  have fj: "all_equal (map snd ?ps) = all_equal (S j)"
    unfolding ms using set_column_scores [OF assms(2,3,5)] by (rule all_equal_cong)
  have pe: "if all_equal (S i) \<or> all_equal (S j) then pearson ?ps = NaN
            else \<exists>v. pearson ?ps = Fin v \<and> - 1 \<le> v \<and> v \<le> 1"
    using pearson_entry [of ?ps] by (simp only: fi fj)
  show ?thesis
  proof (cases "all_equal (S i) \<or> all_equal (S j)")
    case True
    with pe have "pearson ?ps = NaN" by simp
    with True show ?thesis by (simp only: e if_True)
  next
    case False
    with pe have "\<exists>v. pearson ?ps = Fin v \<and> - 1 \<le> v \<and> v \<le> 1" by simp
    then obtain v where v: "pearson ?ps = Fin v" "- 1 \<le> v" "v \<le> 1" by blast
    have "v = 1" if "i = j"
    proof -
      have eq: "?ps = map (\<lambda>x. (x, x)) (map (score_of ids (S i)) ?ix)"
        using that by (simp add: o_def)
      have ne: "\<not> all_equal (map (score_of ids (S i)) ?ix)"
        using False fi unfolding mf by simp
      have "pearson (map (\<lambda>x. (x, x)) (map (score_of ids (S i)) ?ix)) = Fin 1"
        using pearson_diagonal_entry [of "map (score_of ids (S i)) ?ix"] ne by (simp only: if_False)
      then have "pearson ?ps = Fin 1" by (simp only: eq)
      with v(1) show ?thesis by simp
    qed
    with v False show ?thesis by (simp only: e) auto
  qed
qed

lemma evaluate_model_stability_success:
  assumes "parquet w feature_path = Some df"
    and "id_column df = Some ids"
    and "\<forall>i < nat n_runs. fit (build_fraud_pipeline c (base + int i)) (feature_names df) (feature_rows df) = Inr (m i) \<and>
                            feature_names_in (m i) = feature_names df"
    and "distinct ids"
    and "length ids = length (feature_rows df)"
    and "0 < n_runs"
    and "top_n \<noteq> 0"
  shows "evaluate_model_stability fit argsort w feature_path c base n_runs top_n =
           Inr \<lparr>corr_matrix = corr (pivot_of_frames ids (\<lambda>i. raw_scores (m i) df) (nat n_runs)),
                overlaps = map (\<lambda>i. real (card (top_providers argsort top_n (all_frames ids (\<lambda>i. raw_scores (m i) df) (nat n_runs)) i \<inter>
                                              top_providers argsort top_n (all_frames ids (\<lambda>i. raw_scores (m i) df) (nat n_runs)) (Suc i)))
                                      / real_of_int top_n) [0..<nat n_runs - 1]\<rparr>"
proof -
  let ?N = "nat n_runs"
  let ?S = "\<lambda>i. raw_scores (m i) df"
  let ?df = "all_frames ids ?S ?N"
  let ?T = "top_providers argsort top_n ?df"
  have runs: "stability_runs fit (feature_names df) (feature_rows df) ids c base [0..<?N] =
                Inr (map (\<lambda>i. run_frame ids (?S i) i) [0..<?N])"
    unfolding raw_scores_def by (rule stability_runs_success) (use assms(3) in simp)
  have ne: "map (\<lambda>i. run_frame ids (?S i) i) [0..<?N] \<noteq> []"
    using assms(6) by simp
  have cat: "concat_frames (map (\<lambda>i. run_frame ids (?S i) i) [0..<?N]) = Inr ?df"
    using ne by (simp only: concat_frames_def all_frames_def if_False)
  have lens: "\<forall>i < ?N. length (?S i) = length ids"
    using assms(5) by (simp add: raw_scores_def)
  have pv: "pivot ?df = Inr (pivot_of_frames ids ?S ?N)"
    using assms(4) lens by (rule pivot_all_frames)
  have "overlap_ratios top_n (map ?T [0..<?N]) =
          Inr (map (\<lambda>i. real (card (map ?T [0..<?N] ! i \<inter> map ?T [0..<?N] ! Suc i)) / real_of_int top_n)
                 [0..<length (map ?T [0..<?N]) - 1])"
    using assms(7) by (rule overlap_ratios_success)
  also have "map (\<lambda>i. real (card (map ?T [0..<?N] ! i \<inter> map ?T [0..<?N] ! Suc i)) / real_of_int top_n)
                 [0..<length (map ?T [0..<?N]) - 1] =
             map (\<lambda>i. real (card (?T i \<inter> ?T (Suc i))) / real_of_int top_n) [0..<?N - 1]"
    by (rule map_cong) auto
  finally have ov: "overlap_ratios top_n (map ?T [0..<?N]) =
      Inr (map (\<lambda>i. real (card (?T i \<inter> ?T (Suc i))) / real_of_int top_n) [0..<?N - 1])" .
  show ?thesis
    unfolding evaluate_model_stability_def
    by (simp only: assms(1,2) option.case runs sum.case cat pv Let_def ov)
qed

















lemma wf_dataframe_length:
  "wf_dataframe df \<Longrightarrow> id_column df = Some ids \<Longrightarrow> length ids = length (feature_rows df)"
  by (simp add: wf_dataframe_def)

lemma length_raw_scores_rows: "length (raw_scores model df) = length (feature_rows df)"
  by (simp add: raw_scores_def)

text \<open>
  C8, as the code has it. When the table is read, the identifiers are distinct, there is
  at least one row and every run fits, the evaluation of \<open>N \<ge> 1\<close> runs ends with an
  \<open>N\<close> by \<open>N\<close> correlation matrix that is symmetric; the entry of two runs is NaN as
  soon as the scores of one of them are all equal, and otherwise it is a finite value in
  \<open>[-1, 1]\<close>, exactly \<open>1\<close> on the diagonal.
\<close>

theorem evaluate_model_stability_correlation:
  assumes "parquet w feature_path = Some df"
    and "id_column df = Some ids"
    and "wf_dataframe df"
    and "distinct ids"
    and "feature_rows df \<noteq> []"
    and "\<forall>i < nat n_runs. fit (build_fraud_pipeline c (base + int i)) (feature_names df) (feature_rows df) = Inr (m i) \<and>
                            feature_names_in (m i) = feature_names df"
    and "0 < n_runs"
    and "top_n \<noteq> 0"
  shows "\<exists>rep. evaluate_model_stability fit argsort w feature_path c base n_runs top_n = Inr rep \<and>
           length (corr_matrix rep) = nat n_runs \<and>
           (\<forall>i < nat n_runs. length (corr_matrix rep ! i) = nat n_runs) \<and>
           (\<forall>i < nat n_runs. \<forall>j < nat n_runs.
              corr_matrix rep ! i ! j = corr_matrix rep ! j ! i \<and>
              (if all_equal (raw_scores (m i) df) \<or> all_equal (raw_scores (m j) df)
               then corr_matrix rep ! i ! j = NaN
               else \<exists>v. corr_matrix rep ! i ! j = Fin v \<and> - 1 \<le> v \<and> v \<le> 1 \<and> (i = j \<longrightarrow> v = 1)))"
proof -
  let ?N = "nat n_runs"
  let ?S = "\<lambda>i. raw_scores (m i) df"
  let ?pv = "pivot_of_frames ids ?S ?N"
  have len: "length ids = length (feature_rows df)"
    using assms(3,2) by (rule wf_dataframe_length)
  have lens: "\<forall>i < ?N. length (?S i) = length ids"
    using len by (simp add: length_raw_scores_rows)
  have ne: "ids \<noteq> []" using len assms(5) by auto
  define rep where "rep = \<lparr>corr_matrix = corr ?pv,
           overlaps = map (\<lambda>i. real (card (top_providers argsort top_n (all_frames ids ?S ?N) i \<inter>
                                         top_providers argsort top_n (all_frames ids ?S ?N) (Suc i)))
                                 / real_of_int top_n) [0..<?N - 1]\<rparr>"
  have run: "evaluate_model_stability fit argsort w feature_path c base n_runs top_n = Inr rep"
    unfolding rep_def
    using assms(1,2,6,4) len assms(7,8) by (rule evaluate_model_stability_success)
  have cm: "corr_matrix rep = corr ?pv" by (simp add: rep_def)
  have cols: "columns ?pv = [0..<?N]"
    using ne lens by (rule columns_pivot_of_frames)
  have l1: "length (corr ?pv) = ?N" by (simp add: length_corr cols)
  have l2: "\<forall>i < ?N. length (corr ?pv ! i) = ?N" by (simp add: length_corr_row cols)
  have sym: "corr ?pv ! i ! j = corr ?pv ! j ! i" if "i < ?N" "j < ?N" for i j
    using that by (intro corr_symmetric) (simp_all add: cols)
  have ent: "if all_equal (?S i) \<or> all_equal (?S j) then corr ?pv ! i ! j = NaN
             else \<exists>v. corr ?pv ! i ! j = Fin v \<and> - 1 \<le> v \<and> v \<le> 1 \<and> (i = j \<longrightarrow> v = 1)"
    if "i < ?N" "j < ?N" for i j
    using that lens ne assms(4) by (rule corr_pivot_of_frames)
  have "evaluate_model_stability fit argsort w feature_path c base n_runs top_n = Inr rep \<and>
           length (corr_matrix rep) = nat n_runs \<and>
           (\<forall>i < nat n_runs. length (corr_matrix rep ! i) = nat n_runs) \<and>
           (\<forall>i < nat n_runs. \<forall>j < nat n_runs.
              corr_matrix rep ! i ! j = corr_matrix rep ! j ! i \<and>
              (if all_equal (raw_scores (m i) df) \<or> all_equal (raw_scores (m j) df)
               then corr_matrix rep ! i ! j = NaN
               else \<exists>v. corr_matrix rep ! i ! j = Fin v \<and> - 1 \<le> v \<and> v \<le> 1 \<and> (i = j \<longrightarrow> v = 1)))"
    unfolding cm using run l1 l2 sym ent by blast
  then show ?thesis by (rule exI)
qed


section \<open>The examples, evaluated\<close>

lemma seeded_fit_build:
  "seeded_fit (build_fraud_pipeline c s) names rows = Inr (seeded_model names s)"
  by (simp add: seeded_fit_def build_fraud_pipeline_def)

lemma demo_fits:
  "\<forall>i < n. seeded_fit (build_fraud_pipeline c (base + int i)) (feature_names demo_df) (feature_rows demo_df) =
              Inr (demo_models base i) \<and>
            feature_names_in (demo_models base i) = feature_names demo_df"
  by (simp add: seeded_fit_build demo_models_def demo_df_def seeded_model_def variant_model_def)

lemma flat_fits:
  "\<forall>i < n. seeded_fit (build_fraud_pipeline c (base + int i)) (feature_names flat_df) (feature_rows flat_df) =
              Inr (demo_models base i) \<and>
            feature_names_in (demo_models base i) = feature_names flat_df"
  by (simp add: seeded_fit_build demo_models_def flat_df_def seeded_model_def variant_model_def)

lemma demo_run_scores:
  "raw_scores (demo_models 43 0) demo_df = [1, 3, 2]"
  "raw_scores (demo_models 43 1) demo_df = [9, 7, 8]"
  by (simp_all add: raw_scores_def demo_models_def seeded_model_def variant_model_def demo_df_def)

lemma flat_run_scores: "raw_scores (demo_models 42 0) flat_df = [5, 5]"
  by (simp add: raw_scores_def demo_models_def seeded_model_def variant_model_def flat_df_def)

lemma demo_world_facts:
  "parquet demo_world ''fraud_features.parquet'' = Some demo_df"
  "id_column demo_df = Some [101, 102, 103]"
  "wf_dataframe demo_df"
  "feature_rows demo_df \<noteq> []"
  by (simp_all add: demo_world_def demo_df_def wf_dataframe_def)

lemma flat_world_facts:
  "parquet flat_world ''fraud_features.parquet'' = Some flat_df"
  "id_column flat_df = Some [101, 102]"
  "wf_dataframe flat_df"
  "feature_rows flat_df \<noteq> []"
  by (simp_all add: flat_world_def flat_df_def wf_dataframe_def)

theorem evaluate_model_stability_correlation_witness:
  "parquet demo_world ''fraud_features.parquet'' = Some demo_df \<and>
   id_column demo_df = Some [101, 102, 103] \<and>
   wf_dataframe demo_df \<and>
   distinct [101, 102, 103 :: nat] \<and>
   feature_rows demo_df \<noteq> [] \<and>
   seeded_fit (build_fraud_pipeline (2 / 100) 43) (feature_names demo_df) (feature_rows demo_df) =
     Inr (demo_models 43 0) \<and>
   seeded_fit (build_fraud_pipeline (2 / 100) 44) (feature_names demo_df) (feature_rows demo_df) =
     Inr (demo_models 43 1) \<and>
   feature_names_in (demo_models 43 0) = feature_names demo_df \<and>
   feature_names_in (demo_models 43 1) = feature_names demo_df \<and>
   (0::int) < 2 \<and> (2::int) \<noteq> 0 \<and>
   raw_scores (demo_models 43 0) demo_df = [1, 3, 2] \<and>
   raw_scores (demo_models 43 1) demo_df = [9, 7, 8] \<and>
   (\<exists>rep. evaluate_model_stability seeded_fit stable_argsort demo_world ''fraud_features.parquet''
             (2 / 100) 43 2 2 = Inr rep \<and>
           length (corr_matrix rep) = nat 2 \<and>
           (\<forall>i < nat 2. length (corr_matrix rep ! i) = nat 2) \<and>
           (\<forall>i < nat 2. \<forall>j < nat 2.
              corr_matrix rep ! i ! j = corr_matrix rep ! j ! i \<and>
              (if all_equal (raw_scores (demo_models 43 i) demo_df) \<or>
                  all_equal (raw_scores (demo_models 43 j) demo_df)
               then corr_matrix rep ! i ! j = NaN
               else \<exists>v. corr_matrix rep ! i ! j = Fin v \<and> - 1 \<le> v \<and> v \<le> 1 \<and> (i = j \<longrightarrow> v = 1))))"
proof -
  have d: "distinct [101, 102, 103 :: nat]" by simp
  have f0: "seeded_fit (build_fraud_pipeline (2 / 100) 43) (feature_names demo_df) (feature_rows demo_df) =
              Inr (demo_models 43 0)"
    and f1: "seeded_fit (build_fraud_pipeline (2 / 100) 44) (feature_names demo_df) (feature_rows demo_df) =
              Inr (demo_models 43 1)"
    and n0: "feature_names_in (demo_models 43 0) = feature_names demo_df"
    and n1: "feature_names_in (demo_models 43 1) = feature_names demo_df"
    by (simp_all add: seeded_fit_build demo_models_def demo_df_def seeded_model_def variant_model_def)
  have r: "(0::int) < 2" "(2::int) \<noteq> 0" by simp_all
  have fits: "\<forall>i < nat 2. seeded_fit (build_fraud_pipeline (2 / 100) (43 + int i))
                  (feature_names demo_df) (feature_rows demo_df) = Inr (demo_models 43 i) \<and>
                feature_names_in (demo_models 43 i) = feature_names demo_df"
    by (rule demo_fits)
  show ?thesis
    by (intro conjI demo_world_facts d f0 f1 n0 n1 r demo_run_scores
          evaluate_model_stability_correlation
            [where m = "demo_models 43" and fit = seeded_fit and argsort = stable_argsort
               and c = "2 / 100" and base = 43 and n_runs = 2 and top_n = 2, OF demo_world_facts(1,2,3) d demo_world_facts(4) fits r])
qed

lemma singleton_matrix:
  "length xs = 1 \<Longrightarrow> length (xs ! 0) = 1 \<Longrightarrow> xs ! 0 ! 0 = v \<Longrightarrow> xs = [[v]]"
  by (cases xs; cases "hd xs") auto

lemma flat_corr:
  "corr (pivot_of_frames [101, 102 :: nat] (\<lambda>i. raw_scores (demo_models 42 i) flat_df) (nat 1)) = [[NaN]]"
proof -
  let ?S = "\<lambda>i. raw_scores (demo_models 42 i) flat_df"
  let ?pv = "pivot_of_frames [101, 102 :: nat] ?S (nat 1)"
  have lens: "\<forall>i < nat 1. length (?S i) = length [101, 102 :: nat]"
    by (simp add: flat_run_scores)
  have ne: "[101, 102 :: nat] \<noteq> []" by simp
  have d: "distinct [101, 102 :: nat]" by simp
  have z: "0 < nat 1" by simp
  have cols: "columns ?pv = [0..<nat 1]" using ne lens by (rule columns_pivot_of_frames)
  have eq: "all_equal (?S 0)" by (simp add: flat_run_scores all_equal_def)
  have "corr ?pv ! 0 ! 0 = NaN"
    using corr_pivot_of_frames [OF z z lens ne d] eq by simp
  moreover have "length (corr ?pv) = 1" unfolding length_corr cols by simp
  moreover have "length (corr ?pv ! 0) = 1"
    using length_corr_row [of 0 ?pv] unfolding cols by simp
  ultimately show ?thesis by (intro singleton_matrix)
qed

theorem evaluate_model_stability_correlation_counterexample:
  "map_sum id corr_matrix
     (evaluate_model_stability seeded_fit stable_argsort flat_world ''fraud_features.parquet''
        (2 / 100) 42 1 50) = Inr [[NaN]]"
proof -
  have d: "distinct [101, 102 :: nat]" by simp
  have len: "length [101, 102 :: nat] = length (feature_rows flat_df)" by (simp add: flat_df_def)
  have fits: "\<forall>i < nat 1. seeded_fit (build_fraud_pipeline (2 / 100) (42 + int i))
                  (feature_names flat_df) (feature_rows flat_df) = Inr (demo_models 42 i) \<and>
                feature_names_in (demo_models 42 i) = feature_names flat_df"
    by (rule flat_fits)
  have r: "(0::int) < 1" "(50::int) \<noteq> 0" by simp_all
  note run = evaluate_model_stability_success
          [where m = "demo_models 42" and fit = seeded_fit and argsort = stable_argsort
             and c = "2 / 100" and base = 42 and n_runs = 1 and top_n = 50,
           OF flat_world_facts(1,2) fits d len r]
  show ?thesis
    by (simp only: run map_sum.simps stability_report.simps flat_corr id_apply)
qed




theorem pipeline_construction_checks_nothing_witness:
  "(0::int) \<le> 0 \<and>
   build_fraud_pipeline (2 / 100) 42 =
     [(''imputer'', SimpleImputer ''median''), (''scaler'', StandardScaler),
      (''model'', IsolationForest \<lparr>n_estimators = 200, contamination = 2 / 100, random_state = 42, n_jobs = - 1\<rparr>)] \<and>
   evaluate_model_stability seeded_fit stable_argsort demo_world ''fraud_features.parquet'' (2 / 100) 42 0 50 =
     Inl (ValueError ''No objects to concatenate'')"
proof -
  have z: "(0::int) \<le> 0" by simp
  note t = pipeline_construction_checks_nothing
             [of "2 / 100" 42 0 seeded_fit stable_argsort demo_world "''fraud_features.parquet''" 42 50]
  have "evaluate_model_stability seeded_fit stable_argsort demo_world ''fraud_features.parquet'' (2 / 100) 42 0 50 =
     Inl (ValueError ''No objects to concatenate'')"
    using conjunct1 [OF mp [OF conjunct2 [OF t] z]]
    by (simp only: demo_world_facts option.case)
  with z conjunct1 [OF t] show ?thesis by (intro conjI)
qed

theorem pipeline_construction_fails_fast_counterexample:
  "evaluate_model_stability seeded_fit stable_argsort demo_world ''absent.parquet'' (2 / 100) 42 0 50 =
     Inl FileNotFoundError \<and>
   evaluate_model_stability seeded_fit stable_argsort demo_world ''fraud_features.parquet'' (2 / 100) 42 0 50 =
     Inl (ValueError ''No objects to concatenate'') \<and>
   evaluate_model_stability seeded_fit stable_argsort demo_world ''fraud_features.parquet'' (2 / 100) 42 (- 3) 50 \<noteq>
     Inl InvalidHyperparameter"
proof -
  have absent: "parquet demo_world ''absent.parquet'' = None"
    by (simp add: demo_world_def)
  have a: "evaluate_model_stability seeded_fit stable_argsort demo_world ''absent.parquet'' (2 / 100) 42 0 50 =
     Inl FileNotFoundError"
    by (simp only: evaluate_model_stability_no_runs [OF order_refl] absent option.case)
  have b: "evaluate_model_stability seeded_fit stable_argsort demo_world ''fraud_features.parquet'' (2 / 100) 42 n 50 =
     Inl (ValueError ''No objects to concatenate'')" if "n \<le> 0" for n
    by (simp only: evaluate_model_stability_no_runs [OF that] demo_world_facts option.case)
  have c: "evaluate_model_stability seeded_fit stable_argsort demo_world ''fraud_features.parquet'' (2 / 100) 42 (- 3) 50 \<noteq>
     Inl InvalidHyperparameter"
  proof -
    have "(- 3 :: int) \<le> 0" by simp
    then show ?thesis by (simp only: b) simp
  qed
  from a b [OF order_refl] c show ?thesis by (intro conjI)
qed

end
